theory Spec2Isabelle
  imports Complex_Main "HOL-Library.Word"
begin

unbundle bit_operations_syntax

section \<open>Values of the program\<close>

text \<open>
  The program is one Go file, \<^verbatim>\<open>goping.go\<close>. Go's \<^verbatim>\<open>int\<close> is modelled as
  \<^typ>\<open>int\<close>. The two counters of \<^verbatim>\<open>packetLoss\<close> advance by at most one per probe, so
  they stay far inside the 64-bit range; the one product of a user-supplied value
  (\<^verbatim>\<open>timeout * 1000000\<close>) has its 64-bit wrap-around written out (\<open>wrap64\<close>).
  A \<^verbatim>\<open>net.Addr\<close> is represented by the text its \<^verbatim>\<open>String()\<close> method gives, and a
  \<^verbatim>\<open>nil\<close> address by \<open>None\<close>. A \<^verbatim>\<open>time.Duration\<close> is its number of nanoseconds.
\<close>

type_synonym byte = "8 word"

type_synonym net_addr = string

datatype error = Error string

datatype panic = DivideByZero | NilDereference | SliceBounds | IndexOutOfRange

text \<open>
  How a call ends: it returns (\<open>Ok\<close>), the process exits with a status
  (\<^verbatim>\<open>log.Fatal\<close> exits with status 1), or a run-time panic unwinds the call.
\<close>

datatype 'a result = Ok 'a | Exit int | Panicked panic

record packetLoss =
  totalPackets :: int
  lostPackets :: int

record readPacket =
  lenMsg :: int
  addr :: "net_addr option"
  msg :: "byte list"
  dur :: int
  err :: "error option"

text \<open>
  \<^verbatim>\<open>icmp.Message\<close> of golang.org/x/net/icmp. \<^verbatim>\<open>ipv4.ICMPType\<close> is an integer
  type; the two values the program names are the IANA numbers.
\<close>

datatype MessageBody = Echo int int "byte list" | RawBody "byte list"

record Message =
  Type :: int
  Code :: int
  Checksum :: int
  Body :: MessageBody

definition ICMPTypeEcho :: int where
  "ICMPTypeEcho = 8"

definition ICMPTypeEchoReply :: int where
  "ICMPTypeEchoReply = 0"

definition Millisecond :: int where
  "Millisecond = 1000000"

definition Second :: int where
  "Second = 1000000000"

text \<open>
  Library functions the source calls and that are not part of the repository are
  parameters of the model: \<^verbatim>\<open>icmp.ParseMessage\<close>, the \<^verbatim>\<open>String()\<close> methods of
  \<^verbatim>\<open>ipv4.ICMPType\<close> and \<^verbatim>\<open>time.Duration\<close> (used by \<^verbatim>\<open>%v\<close> and \<^verbatim>\<open>%s\<close>), and
  \<^verbatim>\<open>net.ResolveIPAddr\<close>.
\<close>

record library =
  ParseMessage :: "int \<Rightarrow> byte list \<Rightarrow> error + Message"
  ICMPType_String :: "int \<Rightarrow> string"
  Duration_String :: "int \<Rightarrow> string"
  ResolveIPAddr :: "string \<Rightarrow> string \<Rightarrow> error + net_addr"

text \<open>
  What the program does to the outside, in order. \<open>Stdout\<close> carries one printed line
  without its newline. \<open>Store\<close> records the counters after each write to \<^verbatim>\<open>*pl\<close>.
\<close>

datatype event =
    Stdout string
  | PrintDefaults
  | LogFatal error
  | Sleep int
  | SignalNotify
  | Resolve string string
  | ListenPacket string string
  | WriteTo "byte list" net_addr
  | After int
  | Close
  | Store packetLoss

text \<open>
  What the outside does in one probe: the results of \<^verbatim>\<open>icmp.ListenPacket\<close> and of
  \<^verbatim>\<open>WriteTo\<close>, which case of the \<^verbatim>\<open>select\<close> is taken, and the time that
  \<^verbatim>\<open>time.Since(sendTime)\<close> measures. \<open>ReceiveFirst n replyIP e bytes\<close> is a
  \<^verbatim>\<open>ReadFrom\<close> that returned \<open>(n, replyIP, e)\<close> after storing \<open>bytes\<close> at the start of
  the buffer.
\<close>

datatype race = ReceiveFirst nat "net_addr option" "error option" "byte list" | TimerFirst

record probe_env =
  listen_err :: "error option"
  write_err :: "error option"
  race :: race
  elapsed :: int

section \<open>Integer arithmetic and formatting\<close>

text \<open>Go's \<^verbatim>\<open>/\<close> and \<^verbatim>\<open>%\<close> on integers truncate towards zero; \<^verbatim>\<open>/\<close> panics on a zero divisor.\<close>

definition go_quo :: "int \<Rightarrow> int \<Rightarrow> panic + int" where
  "go_quo a b = (if b = 0 then Inl DivideByZero else Inr (sgn a * sgn b * (\<bar>a\<bar> div \<bar>b\<bar>)))"

definition go_rem :: "int \<Rightarrow> int \<Rightarrow> int" where
  "go_rem a b = sgn a * (\<bar>a\<bar> mod \<bar>b\<bar>)"

definition wrap64 :: "int \<Rightarrow> int" where
  "wrap64 x = (x + 2 ^ 63) mod 2 ^ 64 - 2 ^ 63"

text \<open>\<^verbatim>\<open>Duration.Truncate\<close>: rounds towards zero to a multiple of \<open>m\<close>.\<close>

definition Truncate :: "int \<Rightarrow> int \<Rightarrow> int" where
  "Truncate d m = (if m \<le> 0 then d else d - go_rem d m)"

text \<open>\<^verbatim>\<open>%v\<close> of an integer: its decimal digits, with a sign when negative.\<close>

definition digit_char :: "nat \<Rightarrow> char" where
  "digit_char d = ''0123456789'' ! d"

function show_nat :: "nat \<Rightarrow> string" where
  "show_nat n = (if n < 10 then [digit_char n] else show_nat (n div 10) @ [digit_char (n mod 10)])"
  by pat_completeness auto
termination
  by (relation "measure id") auto

declare show_nat.simps [simp del]

definition show_int :: "int \<Rightarrow> string" where
  "show_int i = (if i < 0 then CHR ''-'' # show_nat (nat (- i)) else show_nat (nat i))"

section \<open>The message codec\<close>

text \<open>
  Modelled from the spec: \<^verbatim>\<open>Message.Marshal\<close>, \<^verbatim>\<open>Echo.Marshal\<close> and \<^verbatim>\<open>checksum\<close>
  belong to golang.org/x/net/icmp, which is not under src/. They follow the spec's
  \<^verbatim>\<open>MessageCodec.Encode\<close>: the ICMP for IPv4 framing (type, code, checksum,
  identifier, sequence, payload) with the Internet checksum over the whole message,
  computed as the library does it: 16-bit words summed in a 32-bit accumulator, the
  carries folded back twice, the result complemented and stored into bytes 2 and 3.
\<close>

fun checksum_sum :: "byte list \<Rightarrow> 32 word \<Rightarrow> 32 word" where
  "checksum_sum (b0 # b1 # bs) s = checksum_sum bs (s + (push_bit 8 (ucast b1) OR ucast b0))"
| "checksum_sum [b0] s = s + ucast b0"
| "checksum_sum [] s = s"

definition checksum :: "byte list \<Rightarrow> 16 word" where
  "checksum b =
     (let s = checksum_sum b 0;
          s = drop_bit 16 s + (s AND 0xffff);
          s = s + drop_bit 16 s
      in NOT (ucast s))"

definition PutUint16 :: "16 word \<Rightarrow> byte list" where
  "PutUint16 v = [ucast (drop_bit 8 v), ucast v]"

fun Body_Marshal :: "MessageBody \<Rightarrow> byte list" where
  "Body_Marshal (Echo ident seqno payload) =
     PutUint16 (word_of_int ident) @ PutUint16 (word_of_int seqno) @ payload"
| "Body_Marshal (RawBody payload) = payload"

definition Marshal :: "Message \<Rightarrow> error + byte list" where
  "Marshal m =
     (let b = [word_of_int (Type m), word_of_int (Code m), 0, 0] @ Body_Marshal (Body m);
          s = checksum b
      in Inr (b[2 := b ! 2 XOR ucast s, 3 := b ! 3 XOR ucast (drop_bit 8 s)]))"

text \<open>\<^verbatim>\<open>createICMPMessage\<close>; \<open>pid\<close> is what \<^verbatim>\<open>os.Getpid()\<close> returns in this process.\<close>

definition createICMPMessage :: "int \<Rightarrow> error + byte list" where
  "createICMPMessage pid =
     Marshal \<lparr>Type = ICMPTypeEcho, Code = 0, Checksum = 0, Body = Echo (pid AND 0xffff) 1 []\<rparr>"

text \<open>
  What a correct checksum is, stated as the receiver's check of RFC 1071 and independently
  of how \<open>checksum\<close> computes it: the whole message, checksum field included, is read
  as big-endian 16-bit words (an odd last byte padded with zero); their sum in ones'
  complement arithmetic, where a carry out of bit 15 is added back in, must be
  \<open>0xffff\<close>.
\<close>

definition end_around :: "int \<Rightarrow> int" where
  "end_around s = s mod 65536 + s div 65536"

fun be16_words :: "byte list \<Rightarrow> int list" where
  "be16_words (hi # lo # bs) = (256 * uint hi + uint lo) # be16_words bs"
| "be16_words [hi] = [256 * uint hi]"
| "be16_words [] = []"

definition ones_complement_sum :: "int list \<Rightarrow> int" where
  "ones_complement_sum ws = foldl (\<lambda>acc w. end_around (acc + w)) 0 ws"

definition checksum_verifies :: "byte list \<Rightarrow> bool" where
  "checksum_verifies b = (ones_complement_sum (be16_words b) = 0xffff)"

section \<open>The printer\<close>

definition printTimeout :: "net_addr \<Rightarrow> int \<Rightarrow> event list" where
  "printTimeout a timeout = [Stdout ''Request timed out.'']"

text \<open>
  \<^verbatim>\<open>printPingReply\<close>. Its first statement computes \<open>loss\<close>:
  \<^verbatim>\<open>int(math.Ceil(float64(pl.lostPackets/pl.totalPackets) * 100))\<close>, where the quotient
  is taken on integers and only then converted. The float64 value is written as a real
  number: an integer quotient below \<open>2^46\<close> in magnitude, its product with 100 and the
  ceiling of that are all exact in float64. The advisory line is printed before the
  \<^verbatim>\<open>switch\<close> on the code, so it stands even when the \<^verbatim>\<open>case 0\<close> branch panics on a
  \<^verbatim>\<open>nil\<close> address.
\<close>

definition advisory :: "library \<Rightarrow> Message \<Rightarrow> event list" where
  "advisory lib rm =
     (if Type rm \<noteq> ICMPTypeEchoReply
      then [Stdout (''Expecting echo reply, instead got code '' @ ICMPType_String lib (Type rm))]
      else [])"

definition reply_line :: "library \<Rightarrow> net_addr \<Rightarrow> int \<Rightarrow> int \<Rightarrow> string" where
  "reply_line lib a d loss =
     ''Reply from '' @ a @ '': time='' @ Duration_String lib (Truncate d Millisecond)
       @ '' loss='' @ show_int loss @ ''%''"

definition loss :: "packetLoss \<Rightarrow> panic + int" where
  "loss pl =
     (case go_quo (lostPackets pl) (totalPackets pl) of
        Inl p \<Rightarrow> Inl p
      | Inr q \<Rightarrow> Inr \<lceil>real_of_int q * 100\<rceil>)"

definition printPingReply ::
  "library \<Rightarrow> Message \<Rightarrow> int \<Rightarrow> net_addr option \<Rightarrow> packetLoss \<Rightarrow> event list \<times> unit result" where
  "printPingReply lib rm d raddr pl =
     (case loss pl of
        Inl p \<Rightarrow> ([], Panicked p)
      | Inr percent \<Rightarrow>
          if Code rm = 0 then
            (case raddr of
               None \<Rightarrow> (advisory lib rm, Panicked NilDereference)
             | Some a \<Rightarrow> (advisory lib rm @ [Stdout (reply_line lib a d percent)], Ok ()))
          else if Code rm = 1 then (advisory lib rm @ [Stdout ''Could not reach host''], Ok ())
          else (advisory lib rm @ [Stdout (''Received code '' @ show_int (Code rm))], Ok ()))"

section \<open>One probe\<close>

definition timer_duration :: "int \<Rightarrow> int" where
  "timer_duration timeout = wrap64 (timeout * 1000000)"

text \<open>
  \<^verbatim>\<open>sendPing\<close>. The variable \<^verbatim>\<open>err\<close> tested after the \<^verbatim>\<open>select\<close> is the one
  assigned by \<^verbatim>\<open>WriteTo\<close>; the goroutine declares its own. \<^verbatim>\<open>replyBytes[:r.lenMsg]\<close>
  panics when the length exceeds the 1500 bytes of the buffer.
\<close>

definition sendPing ::
  "net_addr \<Rightarrow> byte list \<Rightarrow> int \<Rightarrow> probe_env \<Rightarrow> packetLoss
     \<Rightarrow> event list \<times> packetLoss \<times> readPacket result" where
  "sendPing dest m timeout env pl =
     (let send_err = write_err env in
      case send_err of
        Some e \<Rightarrow> ([WriteTo m dest, LogFatal e], pl, Exit 1)
      | None \<Rightarrow>
          (let evs = [WriteTo m dest, After (timer_duration timeout)] in
           case race env of
             ReceiveFirst n replyIP recv_err bytes \<Rightarrow>
               (let replyBytes = take 1500 (bytes @ replicate 1500 0);
                    r = \<lparr>lenMsg = int n, addr = replyIP, msg = [], dur = 0, err = recv_err\<rparr>
                in case send_err of
                     Some e \<Rightarrow> (evs @ [LogFatal e], pl, Exit 1)
                   | None \<Rightarrow>
                       if n \<le> 1500
                       then (evs, pl, Ok (r\<lparr>dur := elapsed env, msg := take n replyBytes\<rparr>))
                       else (evs, pl, Panicked SliceBounds))
           | TimerFirst \<Rightarrow>
               (let pl' = pl\<lparr>lostPackets := lostPackets pl + 1\<rparr>
                in (evs @ [Store pl'], pl',
                    Ok \<lparr>lenMsg = - 1, addr = None, msg = [], dur = 0, err = None\<rparr>))))"

text \<open>
  \<^verbatim>\<open>ping\<close>. The deferred \<^verbatim>\<open>channel.Close()\<close> runs when the function returns or
  panics, not when \<^verbatim>\<open>log.Fatal\<close> exits the process.
\<close>

definition ping ::
  "library \<Rightarrow> int \<Rightarrow> net_addr \<Rightarrow> int \<Rightarrow> probe_env \<Rightarrow> packetLoss
     \<Rightarrow> event list \<times> packetLoss \<times> unit result" where
  "ping lib pid a timeout env pl =
     (let pl1 = pl\<lparr>totalPackets := totalPackets pl + 1\<rparr>;
          ev0 = [Store pl1, ListenPacket ''ip4:icmp'' ''0.0.0.0'']
      in case listen_err env of
           Some e \<Rightarrow> (ev0 @ [LogFatal e], pl1, Exit 1)
         | None \<Rightarrow>
             (case createICMPMessage pid of
                Inl e \<Rightarrow> (ev0 @ [LogFatal e], pl1, Exit 1)
              | Inr message \<Rightarrow>
                  (case sendPing a message timeout env pl1 of
                     (ev1, pl2, Exit c) \<Rightarrow> (ev0 @ ev1, pl2, Exit c)
                   | (ev1, pl2, Panicked p) \<Rightarrow> (ev0 @ ev1 @ [Close], pl2, Panicked p)
                   | (ev1, pl2, Ok rp) \<Rightarrow>
                       if lenMsg rp = - 1
                       then (ev0 @ ev1 @ printTimeout a timeout @ [Close], pl2, Ok ())
                       else
                         (case ParseMessage lib 1 (msg rp) of
                            Inl e \<Rightarrow> (ev0 @ ev1 @ [LogFatal e], pl2, Exit 1)
                          | Inr replyMsg \<Rightarrow>
                              (case printPingReply lib replyMsg (dur rp) (addr rp) pl2 of
                                 (ev2, r) \<Rightarrow> (ev0 @ ev1 @ ev2 @ [Close], pl2, r))))))"

section \<open>Address resolution\<close>

text \<open>
  \<^verbatim>\<open>strings.Index\<close> (\<open>None\<close> for \<^verbatim>\<open>-1\<close>), \<^verbatim>\<open>strings.Contains\<close> and
  \<^verbatim>\<open>strings.Split\<close> of Go's standard library: \<^verbatim>\<open>Split\<close> cuts at every
  non-overlapping occurrence of the separator, left to right. (With an empty separator
  Go cuts after each UTF-8 sequence; the program only splits at \<^verbatim>\<open>"www."\<close>.)
\<close>

fun HasPrefix :: "string \<Rightarrow> string \<Rightarrow> bool" where
  "HasPrefix s [] = True"
| "HasPrefix [] (p # ps) = False"
| "HasPrefix (c # cs) (p # ps) = (c = p \<and> HasPrefix cs ps)"

fun Index :: "string \<Rightarrow> string \<Rightarrow> nat option" where
  "Index [] sep = (if sep = [] then Some 0 else None)"
| "Index (c # cs) sep =
     (if HasPrefix (c # cs) sep then Some 0 else map_option Suc (Index cs sep))"

definition Contains :: "string \<Rightarrow> string \<Rightarrow> bool" where
  "Contains s substr = (Index s substr \<noteq> None)"

function Split :: "string \<Rightarrow> string \<Rightarrow> string list" where
  "Split s sep =
     (if sep = [] then map (\<lambda>c. [c]) s
      else case Index s sep of
             None \<Rightarrow> [s]
           | Some m \<Rightarrow> take m s # Split (drop (m + length sep) s) sep)"
  by pat_completeness auto
termination
proof (relation "measure (\<lambda>(s, sep). length s)")
  show "wf (measure (\<lambda>(s, sep). length s))"
    by simp
next
  fix s sep :: string and m :: nat
  assume sep: "sep \<noteq> []" and idx: "Index s sep = Some m"
  have pre: "HasPrefix t p \<Longrightarrow> length p \<le> length t" for t p
    by (induction t p rule: HasPrefix.induct) auto
  have "Index t sep = Some k \<Longrightarrow> k + length sep \<le> length t" for t k
  proof (induction t arbitrary: k)
    case Nil
    then show ?case by (simp split: if_splits)
  next
    case (Cons c cs)
    then show ?case
      using pre [of "c # cs" sep] by (auto split: if_splits)
  qed
  from this [OF idx] sep have "length (drop (m + length sep) s) < length s"
    by (cases sep) auto
  then show "((drop (m + length sep) s, sep), (s, sep)) \<in> measure (\<lambda>(s, sep). length s)"
    by simp
qed

declare Split.simps [simp del]

text \<open>The string that \<^verbatim>\<open>parseIP\<close> hands to \<^verbatim>\<open>net.ResolveIPAddr\<close>.\<close>

definition parseIP_addr :: "string \<Rightarrow> panic + string" where
  "parseIP_addr ip =
     (if Contains ip ''www.''
      then (let parts = Split ip ''www.''
            in if 1 < length parts then Inr (parts ! 1) else Inl IndexOutOfRange)
      else Inr ip)"

definition parseIP :: "library \<Rightarrow> string \<Rightarrow> event list \<times> net_addr result" where
  "parseIP lib ip =
     (case parseIP_addr ip of
        Inl p \<Rightarrow> ([], Panicked p)
      | Inr a \<Rightarrow>
          (case ResolveIPAddr lib ''ip4'' a of
             Inl e \<Rightarrow> ([Resolve ''ip4'' a, LogFatal e], Exit 1)
           | Inr dest \<Rightarrow> ([Resolve ''ip4'' a], Ok dest)))"

section \<open>The driver\<close>

text \<open>\<^verbatim>\<open>flag.Arg(i)\<close>: the i-th remaining argument, or the empty string.\<close>

definition flag_Arg :: "string list \<Rightarrow> nat \<Rightarrow> string" where
  "flag_Arg args i = (if i < length args then args ! i else [])"

text \<open>
  The counted loop \<^verbatim>\<open>for i := 0; i < *iters; i++\<close>. \<open>envs k\<close> is what the outside
  does in the probe of iteration \<open>k\<close>. A probe that exits the process or panics ends
  the loop.
\<close>

function for_loop ::
  "library \<Rightarrow> int \<Rightarrow> net_addr \<Rightarrow> int \<Rightarrow> (nat \<Rightarrow> probe_env) \<Rightarrow> int \<Rightarrow> int \<Rightarrow> packetLoss
     \<Rightarrow> event list \<times> packetLoss \<times> unit result" where
  "for_loop lib pid a timeout envs iters i pl =
     (if i < iters then
        (case ping lib pid a timeout (envs (nat i)) pl of
           (ev, pl', Ok u) \<Rightarrow>
             (case for_loop lib pid a timeout envs iters (i + 1) pl' of
                (ev', pl'', r) \<Rightarrow> (Sleep Second # ev @ ev', pl'', r))
         | (ev, pl', Exit c) \<Rightarrow> (Sleep Second # ev, pl', Exit c)
         | (ev, pl', Panicked p) \<Rightarrow> (Sleep Second # ev, pl', Panicked p))
      else ([], pl, Ok ()))"
  by pat_completeness auto
termination
  by (relation "measure (\<lambda>(lib, pid, a, timeout, envs, iters, i, pl). nat (iters - i))") auto

declare for_loop.simps [simp del]

text \<open>
  The endless loop \<^verbatim>\<open>for { ... }\<close>, run for at most \<open>fuel\<close> iterations: the result
  is \<open>None\<close> when the loop is still running after them, and \<open>Some\<close> of how the
  process ended when a probe exited or panicked. The loop has no exit of its own.
\<close>

fun forever ::
  "nat \<Rightarrow> library \<Rightarrow> int \<Rightarrow> net_addr \<Rightarrow> int \<Rightarrow> (nat \<Rightarrow> probe_env) \<Rightarrow> nat \<Rightarrow> packetLoss
     \<Rightarrow> event list \<times> packetLoss \<times> unit result option" where
  "forever 0 lib pid a timeout envs k pl = ([], pl, None)"
| "forever (Suc fuel) lib pid a timeout envs k pl =
     (case ping lib pid a timeout (envs k) pl of
        (ev, pl', Ok u) \<Rightarrow>
          (case forever fuel lib pid a timeout envs (Suc k) pl' of
             (ev', pl'', r) \<Rightarrow> (Sleep Second # ev @ ev', pl'', r))
      | (ev, pl', Exit c) \<Rightarrow> (Sleep Second # ev, pl', Some (Exit c))
      | (ev, pl', Panicked p) \<Rightarrow> (Sleep Second # ev, pl', Some (Panicked p)))"

text \<open>
  \<^verbatim>\<open>main\<close>, after \<^verbatim>\<open>flag.Parse()\<close>: \<open>iters\<close> and \<open>timeout\<close> are the values of
  \<^verbatim>\<open>-n\<close> and \<^verbatim>\<open>-w\<close>, \<open>args\<close> the remaining arguments. \<^verbatim>\<open>closeHandler\<close> registers
  the signal handler (\<open>SignalNotify\<close>); the handler itself runs concurrently and is not
  part of this sequential model. Returning from \<^verbatim>\<open>main\<close> ends the process with
  status 0.
\<close>

definition main ::
  "nat \<Rightarrow> library \<Rightarrow> int \<Rightarrow> (nat \<Rightarrow> probe_env) \<Rightarrow> int \<Rightarrow> int \<Rightarrow> string list
     \<Rightarrow> event list \<times> unit result option" where
  "main fuel lib pid envs iters timeout args =
     (let ip = flag_Arg args 0 in
      if ip = [] then
        ([Stdout ''Usage: goping [Arguments] IP/Hostname'', PrintDefaults], Some (Ok ()))
      else
        (case parseIP lib ip of
           (ev, Exit c) \<Rightarrow> (SignalNotify # ev, Some (Exit c))
         | (ev, Panicked p) \<Rightarrow> (SignalNotify # ev, Some (Panicked p))
         | (ev, Ok parsedIP) \<Rightarrow>
             (let pl = \<lparr>totalPackets = 0, lostPackets = 0\<rparr> in
              if iters < 0 then
                (case forever fuel lib pid parsedIP timeout envs 0 pl of
                   (ev', pl', r) \<Rightarrow>
                     (SignalNotify # ev
                        @ Stdout (''Pinging '' @ ip @ '' ['' @ parsedIP @ '']'') # ev', r))
              else
                (case for_loop lib pid parsedIP timeout envs iters 0 pl of
                   (ev', pl', r) \<Rightarrow>
                     (SignalNotify # ev
                        @ Stdout (''Pinging '' @ ip @ '' ['' @ parsedIP @ ''] ''
                                    @ show_int iters @ '' times'') # ev',
                      Some r)))))"

definition exit_status :: "unit result \<Rightarrow> int" where
  "exit_status r = (case r of Ok u \<Rightarrow> 0 | Exit c \<Rightarrow> c | Panicked p \<Rightarrow> 2)"

section \<open>Reading a trace\<close>

fun stores :: "event list \<Rightarrow> packetLoss list" where
  "stores [] = []"
| "stores (Store p # evs) = p # stores evs"
| "stores (e # evs) = stores evs"

fun stdout_lines :: "event list \<Rightarrow> string list" where
  "stdout_lines [] = []"
| "stdout_lines (Stdout l # evs) = l # stdout_lines evs"
| "stdout_lines (e # evs) = stdout_lines evs"

text \<open>The events of the driver loop: a delay, and the \<^verbatim>\<open>ListenPacket\<close> that opens a probe.\<close>

fun pacing :: "event list \<Rightarrow> event list" where
  "pacing [] = []"
| "pacing (Sleep d # evs) = Sleep d # pacing evs"
| "pacing (ListenPacket n a # evs) = ListenPacket n a # pacing evs"
| "pacing (e # evs) = pacing evs"

fun network_events :: "event list \<Rightarrow> event list" where
  "network_events [] = []"
| "network_events (Resolve n a # evs) = Resolve n a # network_events evs"
| "network_events (ListenPacket n a # evs) = ListenPacket n a # network_events evs"
| "network_events (WriteTo m a # evs) = WriteTo m a # network_events evs"
| "network_events (e # evs) = network_events evs"

fun sent :: "event list \<Rightarrow> byte list list" where
  "sent [] = []"
| "sent (WriteTo m a # evs) = m # sent evs"
| "sent (e # evs) = sent evs"

fun timers :: "event list \<Rightarrow> int list" where
  "timers [] = []"
| "timers (After d # evs) = d # timers evs"
| "timers (e # evs) = timers evs"

text \<open>The probe reaches the \<^verbatim>\<open>select\<close> and the timer case is taken.\<close>

definition timed_out :: "probe_env \<Rightarrow> bool" where
  "timed_out env = (listen_err env = None \<and> write_err env = None \<and> race env = TimerFirst)"

text \<open>
  The probe returns to the driver loop: the socket opens, the request is sent, and
  either the timer wins or a reply of at most 1500 bytes parses and, where the code
  is 0, has a sender address to print.
\<close>

definition probe_returns :: "library \<Rightarrow> probe_env \<Rightarrow> bool" where
  "probe_returns lib env =
     (listen_err env = None \<and> write_err env = None \<and>
      (case race env of
         TimerFirst \<Rightarrow> True
       | ReceiveFirst n replyIP e bytes \<Rightarrow>
           n \<le> 1500 \<and>
           (case ParseMessage lib 1 (take n (take 1500 (bytes @ replicate 1500 0))) of
              Inl pe \<Rightarrow> False
            | Inr rm \<Rightarrow> Code rm = 0 \<longrightarrow> replyIP \<noteq> None)))"

definition counters_ok :: "packetLoss \<Rightarrow> bool" where
  "counters_ok pl = (0 \<le> lostPackets pl \<and> lostPackets pl \<le> totalPackets pl)"

text \<open>One round of the driver loop as \<open>pacing\<close> shows it: the delay, then the probe.\<close>

definition probe_round :: "event list" where
  "probe_round = [Sleep Second, ListenPacket ''ip4:icmp'' ''0.0.0.0'']"

section \<open>Sample surroundings\<close>

text \<open>
  An instance of the library parameters and four probes, for evaluating the model on
  concrete runs. The sample parser reads type and code from the first two bytes, as
  the ICMP header has them.
\<close>

definition sample_library :: library where
  "sample_library =
     \<lparr>ParseMessage = (\<lambda>proto b.
        if length b < 4 then Inl (Error ''message too short'')
        else Inr \<lparr>Type = uint (b ! 0), Code = uint (b ! 1), Checksum = 0, Body = RawBody (drop 4 b)\<rparr>),
      ICMPType_String = show_int,
      Duration_String = (\<lambda>d. show_int d @ ''ns''),
      ResolveIPAddr = (\<lambda>network a. Inr a)\<rparr>"

definition timeout_probe :: probe_env where
  "timeout_probe = \<lparr>listen_err = None, write_err = None, race = TimerFirst, elapsed = 0\<rparr>"

definition reply_probe :: probe_env where
  "reply_probe =
     \<lparr>listen_err = None, write_err = None,
      race = ReceiveFirst 8 (Some ''10.0.0.1'') None [0, 0, 0xef, 0x6c, 0x10, 0x92, 0, 1],
      elapsed = 12345678\<rparr>"

definition unprivileged_probe :: probe_env where
  "unprivileged_probe =
     \<lparr>listen_err = Some (Error ''socket: operation not permitted''), write_err = None,
      race = TimerFirst, elapsed = 0\<rparr>"

definition failed_read_probe :: probe_env where
  "failed_read_probe =
     \<lparr>listen_err = None, write_err = None,
      race = ReceiveFirst 0 None (Some (Error ''read ip4 0.0.0.0: i/o timeout'')) [],
      elapsed = 1000\<rparr>"

section \<open>Auxiliary facts\<close>

lemma createICMPMessage_Inr: "\<exists>m. createICMPMessage pid = Inr m"
  by (simp add: createICMPMessage_def Marshal_def Let_def)

lemma stores_append: "stores (xs @ ys) = stores xs @ stores ys"
  by (induction xs rule: stores.induct) simp_all

lemma pacing_append: "pacing (xs @ ys) = pacing xs @ pacing ys"
  by (induction xs rule: pacing.induct) simp_all

lemma stdout_lines_append: "stdout_lines (xs @ ys) = stdout_lines xs @ stdout_lines ys"
  by (induction xs rule: stdout_lines.induct) simp_all

lemma stores_printPingReply: "stores (fst (printPingReply lib rm d raddr pl)) = []"
  by (simp add: printPingReply_def advisory_def stores_append split: sum.splits option.splits)

lemma stores_printPingReplyD: "printPingReply lib rm d raddr pl = (ev, r) \<Longrightarrow> stores ev = []"
  using stores_printPingReply [of lib rm d raddr pl] by simp

text \<open>\<^verbatim>\<open>sendPing\<close>, path by path.\<close>

lemma sendPing_write_fail:
  "write_err env = Some e \<Longrightarrow>
     sendPing dest m t env pl = ([WriteTo m dest, LogFatal e], pl, Exit 1)"
  by (simp add: sendPing_def)

lemma sendPing_timer:
  "write_err env = None \<Longrightarrow> race env = TimerFirst \<Longrightarrow>
     sendPing dest m t env pl =
       ([WriteTo m dest, After (timer_duration t),
         Store (pl\<lparr>lostPackets := lostPackets pl + 1\<rparr>)],
        pl\<lparr>lostPackets := lostPackets pl + 1\<rparr>,
        Ok \<lparr>lenMsg = - 1, addr = None, msg = [], dur = 0, err = None\<rparr>)"
  by (simp add: sendPing_def Let_def)

lemma sendPing_receive:
  "write_err env = None \<Longrightarrow> race env = ReceiveFirst n replyIP e bytes \<Longrightarrow>
     sendPing dest m t env pl =
       ([WriteTo m dest, After (timer_duration t)], pl,
        if n \<le> 1500
        then Ok \<lparr>lenMsg = int n, addr = replyIP,
                 msg = take n (take 1500 (bytes @ replicate 1500 0)),
                 dur = elapsed env, err = e\<rparr>
        else Panicked SliceBounds)"
  by (simp add: sendPing_def Let_def)

lemma ping_stores:
  "ping lib pid a t env pl = (ev, pl', r) \<Longrightarrow>
     stores ev =
       (if timed_out env
        then [pl\<lparr>totalPackets := totalPackets pl + 1\<rparr>,
              pl\<lparr>totalPackets := totalPackets pl + 1, lostPackets := lostPackets pl + 1\<rparr>]
        else [pl\<lparr>totalPackets := totalPackets pl + 1\<rparr>])
     \<and> pl' = last (stores ev)"
  using createICMPMessage_Inr [of pid]
  apply (cases "listen_err env"; cases "write_err env"; cases "race env")
  apply (auto simp: ping_def timed_out_def sendPing_write_fail sendPing_timer sendPing_receive
      printTimeout_def stores_append Let_def
      split: sum.splits prod.splits if_splits dest: stores_printPingReplyD)
  done

lemma ping_counters:
  "ping lib pid a t env pl = (ev, pl', r) \<Longrightarrow>
     totalPackets pl' = totalPackets pl + 1
     \<and> lostPackets pl' = (if timed_out env then lostPackets pl + 1 else lostPackets pl)"
  by (drule ping_stores) (simp split: if_splits)

lemma ping_counters_ok:
  assumes "ping lib pid a t env pl = (ev, pl', r)" and "counters_ok pl"
  shows "counters_ok pl' \<and> (\<forall>p \<in> set (stores ev). counters_ok p)"
  using ping_stores [OF assms(1)] assms(2)
  by (auto simp: counters_ok_def split: if_splits)

lemma loss_positive_total: "0 < totalPackets pl \<Longrightarrow> \<exists>q. loss pl = Inr q"
  by (simp add: loss_def go_quo_def)

lemma printPingReply_no_div0:
  "0 < totalPackets pl \<Longrightarrow> snd (printPingReply lib rm d raddr pl) \<noteq> Panicked DivideByZero"
  using loss_positive_total [of pl]
  by (auto simp: printPingReply_def split: option.splits if_splits)

lemma ping_no_div0:
  "0 \<le> totalPackets pl \<Longrightarrow> snd (snd (ping lib pid a t env pl)) \<noteq> Panicked DivideByZero"
  using createICMPMessage_Inr [of pid]
    printPingReply_no_div0 [of "pl\<lparr>totalPackets := totalPackets pl + 1\<rparr>" lib]
  apply (cases "listen_err env"; cases "write_err env"; cases "race env")
  apply (auto simp: ping_def sendPing_write_fail sendPing_timer sendPing_receive
      printTimeout_def Let_def split: sum.splits prod.splits if_splits)
  apply (metis snd_conv)
  done

lemma ping_returns:
  assumes "probe_returns lib env" and "0 \<le> totalPackets pl"
  shows "\<exists>ev pl'. ping lib pid a t env pl = (ev, pl', Ok ())
           \<and> pacing ev = [ListenPacket ''ip4:icmp'' ''0.0.0.0'']"
  using createICMPMessage_Inr [of pid] assms
    loss_positive_total [of "pl\<lparr>totalPackets := totalPackets pl + 1\<rparr>"]
  apply (cases "race env")
  apply (auto simp: probe_returns_def ping_def sendPing_timer sendPing_receive
      printTimeout_def printPingReply_def advisory_def pacing_append Let_def
      split: sum.splits prod.splits if_splits option.splits)
  done


lemma ping_safe:
  assumes "ping lib pid a t env pl = (ev, pl', r)" and "counters_ok pl"
  shows "counters_ok pl' \<and> (\<forall>p \<in> set (stores ev). counters_ok p) \<and> r \<noteq> Panicked DivideByZero"
proof -
  from assms(2) have "0 \<le> totalPackets pl"
    by (simp add: counters_ok_def)
  from ping_no_div0 [OF this, of lib pid a t env] assms(1) have "r \<noteq> Panicked DivideByZero"
    by simp
  with ping_counters_ok [OF assms] show ?thesis
    by simp
qed

lemma for_loop_done:
  "\<not> i < iters \<Longrightarrow> for_loop lib pid a t envs iters i pl = ([], pl, Ok ())"
  by (simp add: for_loop.simps)

lemma for_loop_step:
  "i < iters \<Longrightarrow> ping lib pid a t (envs (nat i)) pl = (ev, pl1, Ok ()) \<Longrightarrow>
     for_loop lib pid a t envs iters i pl =
       (Sleep Second # ev @ fst (for_loop lib pid a t envs iters (i + 1) pl1),
        snd (for_loop lib pid a t envs iters (i + 1) pl1))"
  by (subst for_loop.simps) (simp split: prod.splits)

lemma for_loop_stop:
  "i < iters \<Longrightarrow> ping lib pid a t (envs (nat i)) pl = (ev, pl1, r) \<Longrightarrow> r \<noteq> Ok () \<Longrightarrow>
     for_loop lib pid a t envs iters i pl = (Sleep Second # ev, pl1, r)"
  by (subst for_loop.simps) (simp split: result.splits)

lemma forever_step:
  "ping lib pid a t (envs k) pl = (ev, pl1, Ok ()) \<Longrightarrow>
     forever (Suc fuel) lib pid a t envs k pl =
       (Sleep Second # ev @ fst (forever fuel lib pid a t envs (Suc k) pl1),
        snd (forever fuel lib pid a t envs (Suc k) pl1))"
  by (simp split: prod.splits)

lemma forever_stop:
  "ping lib pid a t (envs k) pl = (ev, pl1, r) \<Longrightarrow> r \<noteq> Ok () \<Longrightarrow>
     forever (Suc fuel) lib pid a t envs k pl = (Sleep Second # ev, pl1, Some r)"
  by (simp split: result.splits)

lemma for_loop_safe:
  "nat (iters - i) = n \<Longrightarrow> counters_ok pl \<Longrightarrow>
     for_loop lib pid a t envs iters i pl = (ev, pl', r) \<Longrightarrow>
     (\<forall>p \<in> set (stores ev). counters_ok p) \<and> r \<noteq> Panicked DivideByZero"
proof (induction n arbitrary: i pl ev pl' r)
  case 0
  then have "\<not> i < iters" by simp
  from for_loop_done [OF this, of lib pid a t envs pl] 0 show ?case by auto
next
  case (Suc n)
  then have lt: "i < iters" by simp
  obtain ev1 pl1 r1 where p: "ping lib pid a t (envs (nat i)) pl = (ev1, pl1, r1)"
    by (cases "ping lib pid a t (envs (nat i)) pl") auto
  note safe = ping_safe [OF p Suc.prems(2)]
  show ?case
  proof (cases "r1 = Ok ()")
    case True
    obtain ev2 pl2 r2 where rest: "for_loop lib pid a t envs iters (i + 1) pl1 = (ev2, pl2, r2)"
      by (cases "for_loop lib pid a t envs iters (i + 1) pl1") auto
    from Suc.prems(1) have "nat (iters - (i + 1)) = n" by simp
    from Suc.IH [OF this _ rest] safe
    have "(\<forall>p \<in> set (stores ev2). counters_ok p) \<and> r2 \<noteq> Panicked DivideByZero"
      by simp
    moreover from for_loop_step [of i iters lib pid a t envs pl ev1 pl1] lt p True rest Suc.prems(3)
    have "ev = Sleep Second # ev1 @ ev2" "r = r2"
      by simp_all
    ultimately show ?thesis
      using safe by (auto simp: stores_append)
  next
    case False
    from for_loop_stop [of i iters lib pid a t envs pl ev1 pl1 r1] lt p False Suc.prems(3) have "ev = Sleep Second # ev1" "r = r1"
      by simp_all
    then show ?thesis
      using safe by simp
  qed
qed

lemma forever_safe:
  "counters_ok pl \<Longrightarrow> forever fuel lib pid a t envs k pl = (ev, pl', r) \<Longrightarrow>
     (\<forall>p \<in> set (stores ev). counters_ok p) \<and> r \<noteq> Some (Panicked DivideByZero)"
proof (induction fuel arbitrary: k pl ev pl' r)
  case 0
  then show ?case by simp
next
  case (Suc fuel)
  obtain ev1 pl1 r1 where p: "ping lib pid a t (envs k) pl = (ev1, pl1, r1)"
    by (cases "ping lib pid a t (envs k) pl") auto
  note safe = ping_safe [OF p Suc.prems(1)]
  show ?case
  proof (cases "r1 = Ok ()")
    case True
    obtain ev2 pl2 r2 where rest: "forever fuel lib pid a t envs (Suc k) pl1 = (ev2, pl2, r2)"
      by (cases "forever fuel lib pid a t envs (Suc k) pl1") auto
    from Suc.IH [OF _ rest] safe
    have "(\<forall>p \<in> set (stores ev2). counters_ok p) \<and> r2 \<noteq> Some (Panicked DivideByZero)"
      by simp
    moreover from forever_step [of lib pid a t envs k pl ev1 pl1 fuel] p True rest Suc.prems(2)
    have "ev = Sleep Second # ev1 @ ev2" "r = r2"
      by simp_all
    ultimately show ?thesis
      using safe by (auto simp: stores_append)
  next
    case False
    from forever_stop [of lib pid a t envs k pl ev1 pl1 r1 fuel] p False Suc.prems(2) have "ev = Sleep Second # ev1" "r = Some r1"
      by simp_all
    then show ?thesis
      using safe by simp
  qed
qed

lemma stores_parseIP: "stores (fst (parseIP lib ip)) = []"
  by (simp add: parseIP_def split: sum.splits)

lemma parseIP_no_div0: "snd (parseIP lib ip) \<noteq> Panicked DivideByZero"
  by (simp add: parseIP_def parseIP_addr_def Let_def split: sum.splits)

lemma main_safe:
  "(\<forall>p \<in> set (stores (fst (main fuel lib pid envs iters timeout args))). counters_ok p)
   \<and> snd (main fuel lib pid envs iters timeout args) \<noteq> Some (Panicked DivideByZero)"
proof -
  let ?pl = "\<lparr>totalPackets = 0, lostPackets = 0\<rparr>"
  have ok: "counters_ok ?pl"
    by (simp add: counters_ok_def)
  show ?thesis
  proof (cases "flag_Arg args 0 = []")
    case True
    then show ?thesis by (simp add: main_def)
  next
    case False
    obtain ev0 r0 where pr: "parseIP lib (flag_Arg args 0) = (ev0, r0)"
      by (cases "parseIP lib (flag_Arg args 0)") auto
    have s0: "stores ev0 = []" and d0: "r0 \<noteq> Panicked DivideByZero"
      using stores_parseIP [of lib "flag_Arg args 0"] parseIP_no_div0 [of lib "flag_Arg args 0"] pr
      by simp_all
    show ?thesis
    proof (cases r0)
      case (Ok dest)
      show ?thesis
      proof (cases "iters < 0")
        case True
        obtain ev pl' r where f: "forever fuel lib pid dest timeout envs 0 ?pl = (ev, pl', r)"
          by (cases "forever fuel lib pid dest timeout envs 0 ?pl") auto
        from forever_safe [OF ok f] False pr Ok True f s0 show ?thesis
          by (simp add: main_def stores_append)
      next
        case nonneg: False
        obtain ev pl' r where f: "for_loop lib pid dest timeout envs iters 0 ?pl = (ev, pl', r)"
          by (cases "for_loop lib pid dest timeout envs iters 0 ?pl") auto
        from for_loop_safe [OF refl ok f] False pr Ok nonneg f s0 show ?thesis
          by (simp add: main_def stores_append)
      qed
    next
      case (Exit c)
      with False pr s0 show ?thesis by (simp add: main_def)
    next
      case (Panicked p)
      with False pr s0 d0 show ?thesis by (simp add: main_def)
    qed
  qed
qed

lemma ping_listen_fail_eq:
  "listen_err env = Some e \<Longrightarrow>
     ping lib pid a t env pl =
       ([Store (pl\<lparr>totalPackets := totalPackets pl + 1\<rparr>), ListenPacket ''ip4:icmp'' ''0.0.0.0'',
         LogFatal e],
        pl\<lparr>totalPackets := totalPackets pl + 1\<rparr>, Exit 1)"
  by (simp add: ping_def Let_def)

lemma ping_timed_out_eq:
  "timed_out env \<Longrightarrow> createICMPMessage pid = Inr m \<Longrightarrow>
     ping lib pid a t env pl =
       ([Store (pl\<lparr>totalPackets := totalPackets pl + 1\<rparr>), ListenPacket ''ip4:icmp'' ''0.0.0.0'',
         WriteTo m a, After (timer_duration t),
         Store (pl\<lparr>totalPackets := totalPackets pl + 1, lostPackets := lostPackets pl + 1\<rparr>),
         Stdout ''Request timed out.'', Close],
        pl\<lparr>totalPackets := totalPackets pl + 1, lostPackets := lostPackets pl + 1\<rparr>, Ok ())"
  by (simp add: ping_def timed_out_def sendPing_timer printTimeout_def Let_def)

lemma ping_receive_eq:
  "listen_err env = None \<Longrightarrow> write_err env = None \<Longrightarrow>
   race env = ReceiveFirst n replyIP e bytes \<Longrightarrow> n \<le> 1500 \<Longrightarrow>
   createICMPMessage pid = Inr m \<Longrightarrow>
   ParseMessage lib 1 (take n (take 1500 (bytes @ replicate 1500 0))) = Inr rm \<Longrightarrow>
     ping lib pid a t env pl =
       ([Store (pl\<lparr>totalPackets := totalPackets pl + 1\<rparr>), ListenPacket ''ip4:icmp'' ''0.0.0.0'',
         WriteTo m a, After (timer_duration t)]
          @ fst (printPingReply lib rm (elapsed env) replyIP (pl\<lparr>totalPackets := totalPackets pl + 1\<rparr>))
          @ [Close],
        pl\<lparr>totalPackets := totalPackets pl + 1\<rparr>,
        snd (printPingReply lib rm (elapsed env) replyIP (pl\<lparr>totalPackets := totalPackets pl + 1\<rparr>)))"
  by (simp add: ping_def sendPing_receive Let_def split: prod.splits)

lemma printPingReply_not_timeout_line:
  "''Request timed out.'' \<notin> set (stdout_lines (fst (printPingReply lib rm d raddr pl)))"
  by (simp add: printPingReply_def advisory_def reply_line_def stdout_lines_append
      split: sum.splits option.splits)

lemma ping_timeout_line:
  "(''Request timed out.'' \<in> set (stdout_lines (fst (ping lib pid a t env pl)))) = timed_out env"
  using createICMPMessage_Inr [of pid]
    printPingReply_not_timeout_line [of lib _ "elapsed env" _ "pl\<lparr>totalPackets := totalPackets pl + 1\<rparr>"]
  apply (cases "listen_err env"; cases "write_err env"; cases "race env")
  apply (auto simp: ping_def timed_out_def sendPing_write_fail sendPing_timer sendPing_receive
      printTimeout_def stdout_lines_append Let_def
      split: sum.splits prod.splits if_splits)
  apply (metis fst_conv)
  done


text \<open>The sample probes and lines.\<close>

lemma show_int_samples:
  "show_int 0 = ''0''" "show_int 2 = ''2''" "show_int 3 = ''3''" "show_int 100 = ''100''"
  "show_int 12000000 = ''12000000''"
  by (simp_all add: show_int_def show_nat.simps digit_char_def)

lemma sample_timeout:
  assumes "createICMPMessage pid = Inr m"
  shows "ping lib pid a t timeout_probe pl =
       ([Store (pl\<lparr>totalPackets := totalPackets pl + 1\<rparr>), ListenPacket ''ip4:icmp'' ''0.0.0.0'',
         WriteTo m a, After (timer_duration t),
         Store (pl\<lparr>totalPackets := totalPackets pl + 1, lostPackets := lostPackets pl + 1\<rparr>),
         Stdout ''Request timed out.'', Close],
        pl\<lparr>totalPackets := totalPackets pl + 1, lostPackets := lostPackets pl + 1\<rparr>, Ok ())"
  by (rule ping_timed_out_eq [OF _ assms]) (simp add: timed_out_def timeout_probe_def)

lemma sample_reply:
  assumes "createICMPMessage pid = Inr m"
  shows "ping sample_library pid a t reply_probe pl =
       ([Store (pl\<lparr>totalPackets := totalPackets pl + 1\<rparr>), ListenPacket ''ip4:icmp'' ''0.0.0.0'',
         WriteTo m a, After (timer_duration t)]
          @ fst (printPingReply sample_library \<lparr>Type = 0, Code = 0, Checksum = 0, Body = RawBody [0x10, 0x92, 0, 1]\<rparr>
                   12345678 (Some ''10.0.0.1'') (pl\<lparr>totalPackets := totalPackets pl + 1\<rparr>))
          @ [Close],
        pl\<lparr>totalPackets := totalPackets pl + 1\<rparr>,
        snd (printPingReply sample_library \<lparr>Type = 0, Code = 0, Checksum = 0, Body = RawBody [0x10, 0x92, 0, 1]\<rparr>
                   12345678 (Some ''10.0.0.1'') (pl\<lparr>totalPackets := totalPackets pl + 1\<rparr>)))"
proof -
  have "ping sample_library pid a t reply_probe pl =
       ([Store (pl\<lparr>totalPackets := totalPackets pl + 1\<rparr>), ListenPacket ''ip4:icmp'' ''0.0.0.0'',
         WriteTo m a, After (timer_duration t)]
          @ fst (printPingReply sample_library \<lparr>Type = 0, Code = 0, Checksum = 0, Body = RawBody [0x10, 0x92, 0, 1]\<rparr>
                   (elapsed reply_probe) (Some ''10.0.0.1'') (pl\<lparr>totalPackets := totalPackets pl + 1\<rparr>))
          @ [Close],
        pl\<lparr>totalPackets := totalPackets pl + 1\<rparr>,
        snd (printPingReply sample_library \<lparr>Type = 0, Code = 0, Checksum = 0, Body = RawBody [0x10, 0x92, 0, 1]\<rparr>
                   (elapsed reply_probe) (Some ''10.0.0.1'') (pl\<lparr>totalPackets := totalPackets pl + 1\<rparr>)))"
    by (rule ping_receive_eq [where n = 8 and e = None
          and bytes = "[0, 0, 0xef, 0x6c, 0x10, 0x92, 0, 1]", OF _ _ _ _ assms])
      (simp_all add: reply_probe_def sample_library_def)
  then show ?thesis
    by (simp add: reply_probe_def)
qed

lemma sample_reply_line:
  "printPingReply sample_library \<lparr>Type = 0, Code = 0, Checksum = 0, Body = b\<rparr>
      12345678 (Some ''10.0.0.1'') \<lparr>totalPackets = 2, lostPackets = 1\<rparr> =
     ([Stdout ''Reply from 10.0.0.1: time=12000000ns loss=0%''], Ok ())"
  by (simp add: printPingReply_def loss_def go_quo_def advisory_def ICMPTypeEchoReply_def
      reply_line_def sample_library_def Truncate_def Millisecond_def go_rem_def show_int_samples)

lemma sample_parseIP:
  "parseIP sample_library ''10.0.0.1'' = ([Resolve ''ip4'' ''10.0.0.1''], Ok ''10.0.0.1'')"
  by (simp add: parseIP_def parseIP_addr_def Contains_def sample_library_def)

lemma for_loop_returns:
  "nat (iters - i) = n \<Longrightarrow> 0 \<le> i \<Longrightarrow> 0 \<le> totalPackets pl \<Longrightarrow>
   (\<forall>k. nat i \<le> k \<and> k < nat iters \<longrightarrow> probe_returns lib (envs k)) \<Longrightarrow>
     \<exists>ev pl'. for_loop lib pid a t envs iters i pl = (ev, pl', Ok ())
        \<and> pacing ev = concat (replicate n probe_round)"
proof (induction n arbitrary: i pl)
  case 0
  then have "\<not> i < iters" by simp
  from for_loop_done [OF this, of lib pid a t envs pl] show ?case by simp
next
  case (Suc n)
  then have lt: "i < iters" by simp
  with Suc.prems have "probe_returns lib (envs (nat i))" by simp
  from ping_returns [OF this Suc.prems(3), of pid a t]
  obtain ev1 pl1 where p: "ping lib pid a t (envs (nat i)) pl = (ev1, pl1, Ok ())"
    and pc: "pacing ev1 = [ListenPacket ''ip4:icmp'' ''0.0.0.0'']"
    by blast
  from ping_counters [OF p] Suc.prems(3) have t1: "0 \<le> totalPackets pl1" by simp
  have n: "nat (iters - (i + 1)) = n" using Suc.prems(1) by simp
  have i1: "0 \<le> i + 1" using Suc.prems(2) by simp
  have "\<forall>k. nat (i + 1) \<le> k \<and> k < nat iters \<longrightarrow> probe_returns lib (envs k)"
    using Suc.prems(4) Suc.prems(2) by (simp add: nat_add_distrib)
  from Suc.IH [OF n i1 t1 this]
  obtain ev2 pl2 where rest: "for_loop lib pid a t envs iters (i + 1) pl1 = (ev2, pl2, Ok ())"
    and pc2: "pacing ev2 = concat (replicate n probe_round)"
    by blast
  from for_loop_step [of i iters lib pid a t envs pl ev1 pl1] lt p rest
  have "for_loop lib pid a t envs iters i pl = (Sleep Second # ev1 @ ev2, pl2, Ok ())"
    by simp
  moreover have "pacing (Sleep Second # ev1 @ ev2) = concat (replicate (Suc n) probe_round)"
    using pc pc2 by (simp add: pacing_append probe_round_def)
  ultimately show ?case
    by blast
qed

lemma forever_running:
  "0 \<le> totalPackets pl \<Longrightarrow> (\<forall>j < fuel. probe_returns lib (envs (k + j))) \<Longrightarrow>
     \<exists>ev pl'. forever fuel lib pid a t envs k pl = (ev, pl', None)
        \<and> pacing ev = concat (replicate fuel probe_round)"
proof (induction fuel arbitrary: k pl)
  case 0
  then show ?case by simp
next
  case (Suc fuel)
  from Suc.prems(2) have "probe_returns lib (envs k)" by force
  from ping_returns [OF this Suc.prems(1), of pid a t]
  obtain ev1 pl1 where p: "ping lib pid a t (envs k) pl = (ev1, pl1, Ok ())"
    and pc: "pacing ev1 = [ListenPacket ''ip4:icmp'' ''0.0.0.0'']"
    by blast
  from ping_counters [OF p] Suc.prems(1) have t1: "0 \<le> totalPackets pl1" by simp
  have "\<forall>j < fuel. probe_returns lib (envs (Suc k + j))"
  proof (intro allI impI)
    fix j assume "j < fuel"
    then have "Suc j < Suc fuel" by simp
    with Suc.prems(2) have "probe_returns lib (envs (k + Suc j))" by blast
    then show "probe_returns lib (envs (Suc k + j))" by simp
  qed
  from Suc.IH [OF t1 this]
  obtain ev2 pl2 where rest: "forever fuel lib pid a t envs (Suc k) pl1 = (ev2, pl2, None)"
    and pc2: "pacing ev2 = concat (replicate fuel probe_round)"
    by blast
  from forever_step [of lib pid a t envs k pl ev1 pl1 fuel] p rest
  have "forever (Suc fuel) lib pid a t envs k pl = (Sleep Second # ev1 @ ev2, pl2, None)"
    by simp
  moreover have "pacing (Sleep Second # ev1 @ ev2) = concat (replicate (Suc fuel) probe_round)"
    using pc pc2 by (simp add: pacing_append probe_round_def)
  ultimately show ?case
    by blast
qed

lemma pacing_parseIP: "pacing (fst (parseIP lib ip)) = []"
  by (simp add: parseIP_def split: sum.splits)

lemma sample_probe_returns:
  "probe_returns lib timeout_probe" "probe_returns sample_library reply_probe"
  by (simp_all add: probe_returns_def timeout_probe_def reply_probe_def sample_library_def)

lemma sample_unprivileged:
  "ping lib pid a t unprivileged_probe pl =
       ([Store (pl\<lparr>totalPackets := totalPackets pl + 1\<rparr>), ListenPacket ''ip4:icmp'' ''0.0.0.0'',
         LogFatal (Error ''socket: operation not permitted'')],
        pl\<lparr>totalPackets := totalPackets pl + 1\<rparr>, Exit 1)"
  by (rule ping_listen_fail_eq) (simp add: unprivileged_probe_def)

lemma timers_append: "timers (xs @ ys) = timers xs @ timers ys"
  by (induction xs rule: timers.induct) simp_all

lemma timers_printPingReply: "timers (fst (printPingReply lib rm d raddr pl)) = []"
  by (simp add: printPingReply_def advisory_def timers_append split: sum.splits option.splits)

lemma ping_timers:
  assumes "listen_err env = None" and "write_err env = None"
  shows "timers (fst (ping lib pid a t env pl)) = [timer_duration t]"
proof -
  obtain m where m: "createICMPMessage pid = Inr m"
    using createICMPMessage_Inr by blast
  have none: "printPingReply lib rm d raddr pl' = (ev, r) \<Longrightarrow> timers ev = []" for rm d raddr pl' ev r
    using timers_printPingReply [of lib rm d raddr pl'] by simp
  show ?thesis
    using assms m
    by (cases "race env")
      (auto simp: ping_def sendPing_timer sendPing_receive printTimeout_def timers_append Let_def
        split: sum.splits prod.splits if_splits dest: none)
qed

text \<open>The checksum: word operations read as integers, and the ones' complement sum.\<close>

lemma end_around_mod: "end_around x mod 65535 = x mod 65535"
proof -
  have "x = end_around x + 65535 * (x div 65536)"
    unfolding end_around_def by (simp add: algebra_simps) 
  then have "x mod 65535 = (end_around x + 65535 * (x div 65536)) mod 65535"
    by simp
  also have "\<dots> = end_around x mod 65535"
    by (rule mod_mult_self2)
  finally show ?thesis by simp
qed

lemma end_around_range:
  assumes "0 < x" and "x \<le> 131070"
  shows "0 < end_around x \<and> end_around x \<le> 65535"
proof (cases "x < 65536")
  case True
  with assms have "end_around x = x" by (simp add: end_around_def)
  with True assms show ?thesis by simp
next
  case False
  with assms have "x div 65536 = 1" by simp
  moreover from this have "x mod 65536 = x - 65536"
    using mult_div_mod_eq [of 65536 x] by simp
  ultimately have "end_around x = x - 65535" by (simp add: end_around_def)
  with False assms show ?thesis by simp
qed

lemma byte_bound: "0 \<le> uint b \<and> uint b < 256" for b :: "8 word"
  using uint_bounded [of b] by simp

lemma le_pair_add:
  "push_bit 8 (ucast lo :: 32 word) OR ucast hi = push_bit 8 (ucast lo) + ucast hi"
  for lo hi :: "8 word"
  by (rule disjunctive_add [symmetric]) (auto simp: bit_simps dest: bit_imp_le_length)

lemma uint_ucast_byte: "uint (ucast b :: 32 word) = uint b" for b :: "8 word"
  using byte_bound [of b] by (simp add: unsigned_ucast_eq take_bit_eq_mod)

lemma uint_le_pair:
  "uint (push_bit 8 (ucast lo :: 32 word) OR ucast hi) = 256 * uint lo + uint hi"
  for lo hi :: "8 word"
proof -
  have "uint (push_bit 8 (ucast lo :: 32 word)) = 256 * uint lo"
    using byte_bound [of lo]
    by (simp only: unsigned_push_bit_eq uint_ucast_byte)
      (simp add: push_bit_eq_mult take_bit_eq_mod)
  then show ?thesis
    using byte_bound [of lo] byte_bound [of hi]
    by (simp only: le_pair_add uint_word_ariths uint_ucast_byte) simp
qed


lemma uint_fold_once:
  "uint (drop_bit 16 s + (s AND 0xffff)) = uint s div 65536 + uint s mod 65536"
  for s :: "32 word"
proof -
  have m: "(0xffff :: 32 word) = mask 16"
    by (simp add: mask_eq_exp_minus_1)
  have a: "uint (s AND 0xffff) = uint s mod 65536"
    by (simp only: m flip: take_bit_eq_mask) (simp add: take_bit_eq_mod uint_mod_distrib)
  have d: "uint (drop_bit 16 s) = uint s div 65536"
    by (simp add: drop_bit_eq_div uint_div_distrib)
  have "uint s < 4294967296"
    using uint_bounded [of s] by simp
  then have "uint s div 65536 + uint s mod 65536 < 4294967296"
    by simp
  moreover have "0 \<le> uint s div 65536 + uint s mod 65536"
    by (intro add_nonneg_nonneg) (simp_all add: pos_imp_zdiv_nonneg_iff)
  ultimately show ?thesis
    by (simp add: uint_word_ariths a d)
qed

lemma uint_fold_twice:
  "uint s \<le> 65535 \<Longrightarrow> uint (s + drop_bit 16 s) = uint s" for s :: "32 word"
proof -
  assume b: "uint s \<le> 65535"
  have "uint (drop_bit 16 s) = uint s div 65536"
    by (simp add: drop_bit_eq_div uint_div_distrib)
  with b have "uint (drop_bit 16 s) = 0"
    by simp
  then have "drop_bit 16 s = 0"
    by (simp add: word_uint_eq_iff)
  then show ?thesis
    by simp
qed

lemma uint_complement:
  "uint s \<le> 65535 \<Longrightarrow> uint (NOT (ucast s :: 16 word)) = 65535 - uint s" for s :: "32 word"
proof -
  assume b: "uint s \<le> 65535"
  have u: "uint (ucast s :: 16 word) = uint s"
    using b by (simp add: unsigned_ucast_eq take_bit_eq_mod)
  have "uint (NOT (ucast s :: 16 word)) = (- uint s - 1) mod 65536"
    by (simp add: unsigned_not_eq take_bit_eq_mod not_int_def u)
  also have "\<dots> = 65535 - uint s"
  proof -
    have "- uint s - 1 = (65535 - uint s) + (- 1) * 65536"
      by simp
    then have "(- uint s - 1) mod 65536 = (65535 - uint s) mod 65536"
      by (metis mod_mult_self1)
    moreover have "0 \<le> uint s"
      by simp
    then have "0 \<le> 65535 - uint s" "65535 - uint s < 65536"
      using b by linarith+
    ultimately show ?thesis
      by (simp add: mod_pos_pos_trivial)
  qed
  finally show ?thesis .
qed

lemma uint_low_byte: "uint (ucast c :: 8 word) = uint c mod 256" for c :: "16 word"
  by (simp add: unsigned_ucast_eq take_bit_eq_mod)

lemma uint_high_byte: "uint (ucast (drop_bit 8 c) :: 8 word) = uint c div 256" for c :: "16 word"
proof -
  have "uint c < 65536"
    using uint_bounded [of c] by simp
  then have "uint c div 256 < 256"
    by simp
  moreover have "0 \<le> uint c div 256"
    by (simp add: pos_imp_zdiv_nonneg_iff)
  moreover have "uint (drop_bit 8 c) = uint c div 256"
    by (simp add: drop_bit_eq_div uint_div_distrib)
  ultimately show ?thesis
    by (simp add: unsigned_ucast_eq take_bit_eq_mod)
qed

lemma ones_complement_fold:
  "0 < acc \<Longrightarrow> acc \<le> 65535 \<Longrightarrow> (\<forall>w \<in> set ws. 0 \<le> w \<and> w \<le> 65535) \<Longrightarrow>
     0 < foldl (\<lambda>a w. end_around (a + w)) acc ws
     \<and> foldl (\<lambda>a w. end_around (a + w)) acc ws \<le> 65535
     \<and> foldl (\<lambda>a w. end_around (a + w)) acc ws mod 65535 = (acc + sum_list ws) mod 65535"
proof (induction ws arbitrary: acc)
  case Nil
  then show ?case by simp
next
  case (Cons w ws)
  let ?acc = "end_around (acc + w)"
  from Cons.prems have "0 < acc + w" "acc + w \<le> 131070"
    by auto
  from end_around_range [OF this] have r: "0 < ?acc" "?acc \<le> 65535"
    by simp_all
  from Cons.prems have "\<forall>w \<in> set ws. 0 \<le> w \<and> w \<le> 65535"
    by simp
  note IH = Cons.IH [OF r this]
  have "(?acc + sum_list ws) mod 65535 = (acc + w + sum_list ws) mod 65535"
    using end_around_mod [of "acc + w"] by (metis mod_add_left_eq)
  with IH show ?case
    by (simp add: add.assoc)
qed

lemma swapped_bytes_mod:
  fixes h l C :: int
  assumes S: "S = 264 + 256 * l + h" and C: "C = 65535 - end_around S"
  shows "(2048 + (256 * (C mod 256) + C div 256) + (256 * h + l) + 1) mod 65535 = 0"
proof -
  define Cq Cr Sq Sr where "Cq = C div 256" and "Cr = C mod 256"
    and "Sq = S div 65536" and "Sr = S mod 65536"
  have c: "C = 256 * Cq + Cr"
    by (simp add: Cq_def Cr_def)
  have s: "S = 65536 * Sq + Sr"
    by (simp add: Sq_def Sr_def)
  have f: "end_around S = Sr + Sq"
    by (simp add: end_around_def Sq_def Sr_def)
  have h: "h = 65536 * Sq + Sr - 264 - 256 * l"
    using S s by simp
  have r: "Cr = 65535 - (Sr + Sq) - 256 * Cq"
    using c C f by simp
  have "2048 + (256 * Cr + Cq) + (256 * h + l) + 1 = 65535 * (256 * (1 + Sq) - 1 - l - Cq)"
    unfolding h r by (simp add: algebra_simps)
  then have "(2048 + (256 * Cr + Cq) + (256 * h + l) + 1) mod 65535 = 0"
    by (simp only: mod_mult_self1_is_0)
  then show ?thesis
    by (simp only: Cq_def Cr_def)
qed


lemma echo_request_checksum:
  fixes hi lo :: byte
  assumes "c = checksum [8, 0, 0, 0, hi, lo, 0, 1]"
  shows "checksum_verifies [8, 0, ucast c, ucast (drop_bit 8 c), hi, lo, 0, 1]"
proof -
  define s0 :: "32 word" where "s0 = 264 + (push_bit 8 (ucast lo) OR ucast hi)"
  define s1 where "s1 = drop_bit 16 s0 + (s0 AND 0xffff)"
  define S where "S = 264 + 256 * uint lo + uint hi"
  have sum: "checksum_sum [8, 0, 0, 0, hi, lo, 0, 1] 0 = s0"
    by (simp add: s0_def)
  have c: "c = NOT (ucast (s1 + drop_bit 16 s1))"
    unfolding assms checksum_def sum Let_def s1_def ..
  have bounds: "0 < S" "S \<le> 131070"
    using byte_bound [of hi] byte_bound [of lo] unfolding S_def by linarith+
  have "uint s0 = (264 + (256 * uint lo + uint hi)) mod 4294967296"
    by (simp add: s0_def uint_word_ariths uint_le_pair)
  then have S0: "uint s0 = S"
    using bounds by (simp add: S_def add.assoc mod_pos_pos_trivial)
  have S1: "uint s1 = end_around S"
    by (simp add: s1_def uint_fold_once S0 end_around_def)
  from end_around_range [OF bounds] have F: "0 < end_around S" "end_around S \<le> 65535"
    by simp_all
  have "uint (s1 + drop_bit 16 s1) = end_around S"
    using uint_fold_twice [of s1] F S1 by simp
  then have C: "uint c = 65535 - end_around S"
    using uint_complement [of "s1 + drop_bit 16 s1"] F by (simp add: c)
  let ?wc = "256 * (uint c mod 256) + uint c div 256"
  let ?wid = "256 * uint hi + uint lo"
  have hb: "uint (drop_bit 8 c) mod 256 = uint c div 256"
    using uint_high_byte [of c] by (simp only: uint_low_byte)
  have words: "be16_words [8, 0, ucast c, ucast (drop_bit 8 c), hi, lo, 0, 1] = [2048, ?wc, ?wid, 1]"
    by (simp only: be16_words.simps uint_low_byte hb) simp
  have cb: "0 \<le> uint c" "uint c < 65536"
    using uint_bounded [of c] by simp_all
  have wc: "0 \<le> ?wc" "?wc \<le> 65535"
  proof -
    have "0 \<le> uint c mod 256" "uint c mod 256 < 256" "0 \<le> uint c div 256" "uint c div 256 < 256"
      using cb by (simp_all add: pos_imp_zdiv_nonneg_iff)
    then show "0 \<le> ?wc" "?wc \<le> 65535"
      by linarith+
  qed
  have wid: "0 \<le> ?wid" "?wid \<le> 65535"
    using byte_bound [of hi] byte_bound [of lo] by linarith+
  have first: "end_around 2048 = 2048"
    by (simp add: end_around_def)
  have "\<forall>w \<in> set [?wc, ?wid, 1]. 0 \<le> w \<and> w \<le> 65535"
    using wc wid by simp
  from ones_complement_fold [of 2048 "[?wc, ?wid, 1]", OF _ _ this]
  have r: "0 < foldl (\<lambda>a w. end_around (a + w)) 2048 [?wc, ?wid, 1]"
    "foldl (\<lambda>a w. end_around (a + w)) 2048 [?wc, ?wid, 1] \<le> 65535"
    "foldl (\<lambda>a w. end_around (a + w)) 2048 [?wc, ?wid, 1] mod 65535
       = (2048 + sum_list [?wc, ?wid, 1]) mod 65535"
    by simp_all
  have "(2048 + sum_list [?wc, ?wid, 1]) mod 65535
      = (2048 + ?wc + ?wid + 1) mod 65535"
    by (simp add: add.assoc)
  also have "\<dots> = 0"
    by (rule swapped_bytes_mod [OF _ C]) (simp add: S_def)
  finally have z: "foldl (\<lambda>a w. end_around (a + w)) 2048 [?wc, ?wid, 1] mod 65535 = 0"
    using r(3) by simp
  have "foldl (\<lambda>a w. end_around (a + w)) 2048 [?wc, ?wid, 1] = 65535"
  proof (rule ccontr)
    assume "foldl (\<lambda>a w. end_around (a + w)) 2048 [?wc, ?wid, 1] \<noteq> 65535"
    with r(1,2) have "foldl (\<lambda>a w. end_around (a + w)) 2048 [?wc, ?wid, 1] mod 65535
        = foldl (\<lambda>a w. end_around (a + w)) 2048 [?wc, ?wid, 1]"
      by (simp add: mod_pos_pos_trivial)
    with z r(1) show False
      by simp
  qed
  then show ?thesis
    unfolding checksum_verifies_def ones_complement_sum_def words
    by (simp add: first)
qed


lemma sent_iff: "m \<in> set (sent evs) \<longleftrightarrow> (\<exists>d. WriteTo m d \<in> set evs)"
  by (induction evs rule: sent.induct) auto

lemma printPingReply_only_prints:
  "e \<in> set (fst (printPingReply lib rm d raddr pl)) \<Longrightarrow> \<exists>line. e = Stdout line"
  by (auto simp: printPingReply_def advisory_def split: sum.splits option.splits if_splits)

lemma ping_writes:
  assumes "WriteTo m d \<in> set (fst (ping lib pid a t env pl))"
  shows "createICMPMessage pid = Inr m"
proof -
  obtain m' where m': "createICMPMessage pid = Inr m'"
    using createICMPMessage_Inr by blast
  have "WriteTo m d \<notin> set (fst (printPingReply lib rm dd raddr pl'))" for rm dd raddr pl'
    using printPingReply_only_prints [of "WriteTo m d" lib rm dd raddr pl'] by auto
  then have "m = m'"
    using assms m'
    apply (cases "listen_err env"; cases "write_err env"; cases "race env")
    apply (auto simp: ping_def sendPing_write_fail sendPing_timer sendPing_receive
        printTimeout_def Let_def split: sum.splits prod.splits if_splits)
    apply (metis fst_conv)+
    done
  with m' show ?thesis
    by simp
qed

lemma for_loop_events:
  "nat (iters - i) = n \<Longrightarrow> e \<in> set (fst (for_loop lib pid a t envs iters i pl)) \<Longrightarrow>
     e = Sleep Second \<or> (\<exists>env pl'. e \<in> set (fst (ping lib pid a t env pl')))"
proof (induction n arbitrary: i pl)
  case 0
  then have "\<not> i < iters" by simp
  from for_loop_done [OF this, of lib pid a t envs pl] 0 show ?case by simp
next
  case (Suc n)
  then have lt: "i < iters" by simp
  obtain ev1 pl1 r1 where p: "ping lib pid a t (envs (nat i)) pl = (ev1, pl1, r1)"
    by (cases "ping lib pid a t (envs (nat i)) pl") auto
  have here: "e' \<in> set ev1 \<Longrightarrow> \<exists>env pl'. e' \<in> set (fst (ping lib pid a t env pl'))" for e'
    using p by (metis fst_conv)
  show ?case
  proof (cases "r1 = Ok ()")
    case True
    from Suc.prems(1) have n: "nat (iters - (i + 1)) = n" by simp
    from for_loop_step [of i iters lib pid a t envs pl ev1 pl1] lt p True Suc.prems(2)
    have "e = Sleep Second \<or> e \<in> set ev1
        \<or> e \<in> set (fst (for_loop lib pid a t envs iters (i + 1) pl1))"
      by auto
    with Suc.IH [OF n] here show ?thesis
      by blast
  next
    case False
    from for_loop_stop [of i iters lib pid a t envs pl ev1 pl1 r1] lt p False Suc.prems(2)
    have "e = Sleep Second \<or> e \<in> set ev1"
      by auto
    with here show ?thesis
      by blast
  qed
qed

lemma forever_events:
  "e \<in> set (fst (forever fuel lib pid a t envs k pl)) \<Longrightarrow>
     e = Sleep Second \<or> (\<exists>env pl'. e \<in> set (fst (ping lib pid a t env pl')))"
proof (induction fuel arbitrary: k pl)
  case 0
  then show ?case by simp
next
  case (Suc fuel)
  obtain ev1 pl1 r1 where p: "ping lib pid a t (envs k) pl = (ev1, pl1, r1)"
    by (cases "ping lib pid a t (envs k) pl") auto
  have here: "e' \<in> set ev1 \<Longrightarrow> \<exists>env pl'. e' \<in> set (fst (ping lib pid a t env pl'))" for e'
    using p by (metis fst_conv)
  show ?case
  proof (cases "r1 = Ok ()")
    case True
    from forever_step [of lib pid a t envs k pl ev1 pl1 fuel] p True Suc.prems
    have "e = Sleep Second \<or> e \<in> set ev1
        \<or> e \<in> set (fst (forever fuel lib pid a t envs (Suc k) pl1))"
      by auto
    with Suc.IH here show ?thesis
      by blast
  next
    case False
    from forever_stop [of lib pid a t envs k pl ev1 pl1 r1 fuel] p False Suc.prems
    have "e = Sleep Second \<or> e \<in> set ev1"
      by auto
    with here show ?thesis
      by blast
  qed
qed

lemma sent_parseIP: "sent (fst (parseIP lib ip)) = []"
  by (simp add: parseIP_def split: sum.splits)

lemma sent_append: "sent (xs @ ys) = sent xs @ sent ys"
  by (induction xs rule: sent.induct) simp_all

lemma main_writes:
  assumes "m \<in> set (sent (fst (main fuel lib pid envs iters timeout args)))"
  shows "createICMPMessage pid = Inr m"
proof -
  let ?pl = "\<lparr>totalPackets = 0, lostPackets = 0\<rparr>"
  have loop: "createICMPMessage pid = Inr m"
    if "m \<in> set (sent evs)"
      and "\<And>e. e \<in> set evs \<Longrightarrow>
             e = Sleep Second \<or> (\<exists>env pl'. e \<in> set (fst (ping lib pid dest timeout env pl')))"
    for evs dest
  proof -
    from that(1) obtain d where "WriteTo m d \<in> set evs"
      by (auto simp: sent_iff)
    with that(2) obtain env pl' where "WriteTo m d \<in> set (fst (ping lib pid dest timeout env pl'))"
      by blast
    then show ?thesis
      by (rule ping_writes)
  qed
  show ?thesis
  proof (cases "flag_Arg args 0 = []")
    case True
    with assms show ?thesis by (simp add: main_def)
  next
    case False
    obtain ev0 r0 where pr: "parseIP lib (flag_Arg args 0) = (ev0, r0)"
      by (cases "parseIP lib (flag_Arg args 0)") auto
    have s0: "sent ev0 = []"
      using sent_parseIP [of lib "flag_Arg args 0"] pr by simp
    show ?thesis
    proof (cases r0)
      case (Ok dest)
      show ?thesis
      proof (cases "iters < 0")
        case True
        obtain ev pl' r where f: "forever fuel lib pid dest timeout envs 0 ?pl = (ev, pl', r)"
          by (cases "forever fuel lib pid dest timeout envs 0 ?pl") auto
        from assms False pr Ok True f s0 have "m \<in> set (sent ev)"
          by (simp add: main_def sent_append)
        then show ?thesis
          using forever_events [of _ fuel lib pid dest timeout envs 0 ?pl] f
          by (intro loop [of ev dest]) auto
      next
        case nonneg: False
        obtain ev pl' r where f: "for_loop lib pid dest timeout envs iters 0 ?pl = (ev, pl', r)"
          by (cases "for_loop lib pid dest timeout envs iters 0 ?pl") auto
        from assms False pr Ok nonneg f s0 have "m \<in> set (sent ev)"
          by (simp add: main_def sent_append)
        then show ?thesis
          using for_loop_events [OF refl, of _ lib pid dest timeout envs iters 0 ?pl] f
          by (intro loop [of ev dest]) auto
      qed
    next
      case (Exit c)
      with assms False pr s0 show ?thesis by (simp add: main_def)
    next
      case (Panicked p)
      with assms False pr s0 show ?thesis by (simp add: main_def)
    qed
  qed
qed

lemma uint_identifier:
  fixes x :: "16 word"
  shows "256 * uint (ucast (drop_bit 8 x) :: byte) + uint (ucast x :: byte) = uint x"
  by (subst uint_high_byte) (simp add: uint_low_byte)

lemma identifier_range: "uint (word_of_int (pid AND 0xffff) :: 16 word) = pid AND 0xffff"
proof -
  have m: "(0xffff :: int) = mask 16"
    by (simp add: mask_eq_exp_minus_1)
  have "pid AND 0xffff = take_bit 16 pid"
    by (simp only: m take_bit_eq_mask)
  then show ?thesis
    by (simp add: uint_word_of_int take_bit_eq_mod)
qed

section \<open>The claims\<close>

text \<open>
  C1. The loss percentage that \<^verbatim>\<open>printPingReply\<close> computes is not
  \<open>ceil(L / N * 100)\<close>: the quotient \<^verbatim>\<open>pl.lostPackets/pl.totalPackets\<close> is an integer
  division, converted to float64 afterwards. After two probes of which the first timed
  out, the code computes 0 and prints \<^verbatim>\<open>loss=0%\<close>, where \<open>ceil(1 / 2 * 100)\<close> is 50.
\<close>

theorem loss_after_one_timeout_of_two:
  "loss \<lparr>totalPackets = 2, lostPackets = 1\<rparr> = Inr 0
   \<and> \<lceil>(1 :: real) / 2 * 100\<rceil> = (50 :: int)
   \<and> stdout_lines (fst (main 0 sample_library 4242
        (\<lambda>k. if k = 0 then timeout_probe else reply_probe) 2 5000 [''10.0.0.1''])) =
       [''Pinging 10.0.0.1 [10.0.0.1] 2 times'', ''Request timed out.'',
        ''Reply from 10.0.0.1: time=12000000ns loss=0%'']"
proof -
  obtain m where m: "createICMPMessage 4242 = Inr m"
    using createICMPMessage_Inr by blast
  have "loss \<lparr>totalPackets = 2, lostPackets = 1\<rparr> = Inr 0"
    by (simp add: loss_def go_quo_def)
  moreover have "\<lceil>(1 :: real) / 2 * 100\<rceil> = (50 :: int)"
    by simp
  moreover have "stdout_lines (fst (main 0 sample_library 4242
        (\<lambda>k. if k = 0 then timeout_probe else reply_probe) 2 5000 [''10.0.0.1''])) =
       [''Pinging 10.0.0.1 [10.0.0.1] 2 times'', ''Request timed out.'',
        ''Reply from 10.0.0.1: time=12000000ns loss=0%'']"
    by (simp add: main_def flag_Arg_def sample_parseIP for_loop.simps sample_timeout [OF m]
        sample_reply [OF m] sample_reply_line show_int_samples Let_def)
  ultimately show ?thesis
    by simp
qed

text \<open>
  C2. Every probe writes \<^verbatim>\<open>totalPackets\<close> exactly once, adding one, whatever the
  outcome (also when the probe ends the process), and writes \<^verbatim>\<open>lostPackets\<close>, adding
  one, exactly when the timer case of the \<^verbatim>\<open>select\<close> is taken, which is exactly when
  \<^verbatim>\<open>Request timed out.\<close> is printed. In every run of \<^verbatim>\<open>main\<close>, after every write
  to the counters, \<open>lostPackets \<le> totalPackets\<close>.
\<close>

theorem counters_per_probe:
  "(ping lib pid a t env pl = (ev, pl', r) \<longrightarrow>
      stores ev =
        (if timed_out env
         then [pl\<lparr>totalPackets := totalPackets pl + 1\<rparr>,
               pl\<lparr>totalPackets := totalPackets pl + 1, lostPackets := lostPackets pl + 1\<rparr>]
         else [pl\<lparr>totalPackets := totalPackets pl + 1\<rparr>])
      \<and> totalPackets pl' = totalPackets pl + 1
      \<and> lostPackets pl' = (if timed_out env then lostPackets pl + 1 else lostPackets pl)
      \<and> (''Request timed out.'' \<in> set (stdout_lines ev)) = timed_out env)
   \<and> (\<forall>p \<in> set (stores (fst (main fuel lib pid envs iters timeout args))).
         lostPackets p \<le> totalPackets p)"
proof -
  have "stores ev =
        (if timed_out env
         then [pl\<lparr>totalPackets := totalPackets pl + 1\<rparr>,
               pl\<lparr>totalPackets := totalPackets pl + 1, lostPackets := lostPackets pl + 1\<rparr>]
         else [pl\<lparr>totalPackets := totalPackets pl + 1\<rparr>])
      \<and> totalPackets pl' = totalPackets pl + 1
      \<and> lostPackets pl' = (if timed_out env then lostPackets pl + 1 else lostPackets pl)
      \<and> (''Request timed out.'' \<in> set (stdout_lines ev)) = timed_out env"
    if p: "ping lib pid a t env pl = (ev, pl', r)"
    using ping_stores [OF p] ping_counters [OF p] ping_timeout_line [of lib pid a t env pl] p
    by simp
  moreover have "\<forall>p \<in> set (stores (fst (main fuel lib pid envs iters timeout args))).
         lostPackets p \<le> totalPackets p"
    using main_safe [of fuel lib pid envs iters timeout args]
    by (simp add: counters_ok_def)
  ultimately show ?thesis
    by blast
qed

theorem counters_per_probe_witness:
  "stores (fst (ping sample_library 4242 ''10.0.0.1'' 5000 timeout_probe
                  \<lparr>totalPackets = 0, lostPackets = 0\<rparr>)) =
     [\<lparr>totalPackets = 1, lostPackets = 0\<rparr>, \<lparr>totalPackets = 1, lostPackets = 1\<rparr>]
   \<and> stores (fst (ping sample_library 4242 ''10.0.0.1'' 5000 reply_probe
                  \<lparr>totalPackets = 1, lostPackets = 1\<rparr>)) =
     [\<lparr>totalPackets = 2, lostPackets = 1\<rparr>]
   \<and> list_all (\<lambda>p. lostPackets p \<le> totalPackets p)
        (stores (fst (main 0 sample_library 4242
           (\<lambda>k. if k = 0 then timeout_probe else reply_probe) 2 5000 [''10.0.0.1''])))"
proof -
  let ?p1 = "ping sample_library 4242 ''10.0.0.1'' 5000 timeout_probe
               \<lparr>totalPackets = 0, lostPackets = 0\<rparr>"
  let ?p2 = "ping sample_library 4242 ''10.0.0.1'' 5000 reply_probe
               \<lparr>totalPackets = 1, lostPackets = 1\<rparr>"
  have t: "timed_out timeout_probe" "\<not> timed_out reply_probe"
    by (simp_all add: timed_out_def timeout_probe_def reply_probe_def)
  show ?thesis
    using t
      counters_per_probe [of sample_library 4242 "''10.0.0.1''" 5000 timeout_probe
        "\<lparr>totalPackets = 0, lostPackets = 0\<rparr>" "fst ?p1" "fst (snd ?p1)" "snd (snd ?p1)"
        0 "\<lambda>k. if k = 0 then timeout_probe else reply_probe" 2 5000
        "[''10.0.0.1'']"]
      counters_per_probe [of sample_library 4242 "''10.0.0.1''" 5000 reply_probe
        "\<lparr>totalPackets = 1, lostPackets = 1\<rparr>" "fst ?p2" "fst (snd ?p2)" "snd (snd ?p2)"
        0 "\<lambda>k. if k = 0 then timeout_probe else reply_probe" 2 5000
        "[''10.0.0.1'']"]
    by (simp add: list_all_iff)
qed

text \<open>
  C3. The printer. \<^verbatim>\<open>printTimeout\<close> prints exactly \<^verbatim>\<open>Request timed out.\<close> For a
  reply, whenever the loss percentage is computed (the divisor is not zero, as in every
  call from \<^verbatim>\<open>ping\<close>): code 0 from an address prints
  \<^verbatim>\<open>Reply from {address}: time={duration} loss={percent}%\<close>, the duration truncated
  to milliseconds; code 1 prints exactly \<^verbatim>\<open>Could not reach host\<close>, whatever the
  duration and the address; any other code prints \<^verbatim>\<open>Received code {code}\<close>. In each
  case the line comes after the advisory, which is one line naming the type when the
  type is not Echo Reply and nothing otherwise.
\<close>

theorem printer_lines:
  "printTimeout a timeout = [Stdout ''Request timed out.'']
   \<and> (loss pl = Inr percent \<longrightarrow>
        (Code rm = 0 \<longrightarrow>
           printPingReply lib rm d (Some ra) pl =
             (advisory lib rm @
                [Stdout (''Reply from '' @ ra @ '': time=''
                           @ Duration_String lib (Truncate d Millisecond)
                           @ '' loss='' @ show_int percent @ ''%'')], Ok ()))
      \<and> (Code rm = 1 \<longrightarrow>
           printPingReply lib rm d raddr pl =
             (advisory lib rm @ [Stdout ''Could not reach host''], Ok ()))
      \<and> (Code rm \<noteq> 0 \<and> Code rm \<noteq> 1 \<longrightarrow>
           printPingReply lib rm d raddr pl =
             (advisory lib rm @ [Stdout (''Received code '' @ show_int (Code rm))], Ok ())))
   \<and> (Type rm \<noteq> ICMPTypeEchoReply \<longrightarrow>
        advisory lib rm =
          [Stdout (''Expecting echo reply, instead got code '' @ ICMPType_String lib (Type rm))])
   \<and> (Type rm = ICMPTypeEchoReply \<longrightarrow> advisory lib rm = [])"
  by (simp add: printTimeout_def printPingReply_def advisory_def reply_line_def)

theorem printer_lines_witness:
  "printTimeout ''10.0.0.1'' 5000 = [Stdout ''Request timed out.'']
   \<and> printPingReply sample_library \<lparr>Type = 0, Code = 0, Checksum = 0, Body = RawBody []\<rparr>
        12345678 (Some ''10.0.0.1'') \<lparr>totalPackets = 2, lostPackets = 2\<rparr> =
       ([Stdout ''Reply from 10.0.0.1: time=12000000ns loss=100%''], Ok ())
   \<and> printPingReply sample_library \<lparr>Type = 3, Code = 1, Checksum = 0, Body = RawBody []\<rparr>
        12345678 None \<lparr>totalPackets = 2, lostPackets = 2\<rparr> =
       ([Stdout ''Expecting echo reply, instead got code 3'', Stdout ''Could not reach host''],
        Ok ())
   \<and> printPingReply sample_library \<lparr>Type = 0, Code = 7, Checksum = 0, Body = RawBody []\<rparr>
        12345678 None \<lparr>totalPackets = 2, lostPackets = 2\<rparr> =
       ([Stdout ''Received code 7''], Ok ())"
proof -
  let ?pl = "\<lparr>totalPackets = 2, lostPackets = 2\<rparr>"
  have l: "loss ?pl = Inr 100"
    by (simp add: loss_def go_quo_def)
  have s: "show_int 100 = ''100''" "show_int 12000000 = ''12000000''" "show_int 3 = ''3''"
    "show_int 7 = ''7''"
    by (simp_all add: show_int_def show_nat.simps digit_char_def)
  show ?thesis
    using l s
      printer_lines [of "''10.0.0.1''" 5000 ?pl 100
        "\<lparr>Type = 0, Code = 0, Checksum = 0, Body = RawBody []\<rparr>" sample_library 12345678
        "''10.0.0.1''" None]
      printer_lines [of "''10.0.0.1''" 5000 ?pl 100
        "\<lparr>Type = 3, Code = 1, Checksum = 0, Body = RawBody []\<rparr>" sample_library 12345678
        "''10.0.0.1''" None]
      printer_lines [of "''10.0.0.1''" 5000 ?pl 100
        "\<lparr>Type = 0, Code = 7, Checksum = 0, Body = RawBody []\<rparr>" sample_library 12345678
        "''10.0.0.1''" None]
    by (simp add: sample_library_def ICMPTypeEchoReply_def Truncate_def Millisecond_def go_rem_def)
qed

text \<open>
  C4. \<^verbatim>\<open>parseIP\<close> takes element 1 of \<^verbatim>\<open>strings.Split(ip, "www.")\<close>, which is the
  text between the first and the second occurrence of \<^verbatim>\<open>www.\<close>: for the host
  \<^verbatim>\<open>awww.com\<close> entered as \<^verbatim>\<open>www.awww.com\<close> the name resolved is \<^verbatim>\<open>a\<close>, not
  \<^verbatim>\<open>awww.com\<close>, the input with everything up to and including \<^verbatim>\<open>www.\<close> removed.
\<close>

theorem parseIP_second_www_cuts:
  "parseIP_addr ''www.awww.com'' = Inr ''a''
   \<and> fst (parseIP sample_library ''www.awww.com'') = [Resolve ''ip4'' ''a'']
   \<and> drop (length ''www.'') ''www.awww.com'' = ''awww.com''"
  by (simp add: parseIP_def parseIP_addr_def Contains_def Split.simps sample_library_def)

text \<open>
  C5. The loss computation has no guard: with \<^verbatim>\<open>totalPackets\<close> 0 it panics with an
  integer division by zero and does not return 0. The zero divisor is unreachable in
  a run, because \<^verbatim>\<open>ping\<close> increments \<^verbatim>\<open>totalPackets\<close> before the reply is printed:
  with a positive \<^verbatim>\<open>totalPackets\<close> the computation returns a value, and no run of
  \<^verbatim>\<open>main\<close> ends in a division by zero.
\<close>

theorem no_division_by_zero_in_a_run:
  "(0 < totalPackets pl \<longrightarrow> loss pl \<noteq> Inl DivideByZero)
   \<and> snd (main fuel lib pid envs iters timeout args) \<noteq> Some (Panicked DivideByZero)"
  using main_safe [of fuel lib pid envs iters timeout args] loss_positive_total [of pl]
  by auto

theorem no_division_by_zero_in_a_run_witness:
  "(0 :: int) < totalPackets \<lparr>totalPackets = 1, lostPackets = 0\<rparr>
   \<and> loss \<lparr>totalPackets = 1, lostPackets = 0\<rparr> \<noteq> Inl DivideByZero
   \<and> snd (main 0 sample_library 4242 (\<lambda>k. reply_probe) 1 5000 [''10.0.0.1''])
       \<noteq> Some (Panicked DivideByZero)"
  using no_division_by_zero_in_a_run [of "\<lparr>totalPackets = 1, lostPackets = 0\<rparr>" 0 sample_library
      4242 "\<lambda>k. reply_probe" 1 5000 "[''10.0.0.1'']"]
  by simp

theorem loss_zero_total_panics:
  "loss \<lparr>totalPackets = 0, lostPackets = 0\<rparr> = Inl DivideByZero
   \<and> loss \<lparr>totalPackets = 0, lostPackets = 0\<rparr> \<noteq> Inr 0
   \<and> printPingReply sample_library \<lparr>Type = 0, Code = 0, Checksum = 0, Body = RawBody []\<rparr>
        12345678 (Some ''10.0.0.1'') \<lparr>totalPackets = 0, lostPackets = 0\<rparr> =
       ([], Panicked DivideByZero)"
  by (simp add: printPingReply_def loss_def go_quo_def)

text \<open>
  C6. For every process id, \<^verbatim>\<open>createICMPMessage\<close> succeeds and yields eight bytes:
  type 8 (Echo Request), code 0, the checksum, the identifier \<^verbatim>\<open>pid & 0xffff\<close> and
  the sequence number 1, both big-endian, and an empty payload; the checksum verifies
  over the whole message. Every message written to the socket in a run of \<^verbatim>\<open>main\<close>
  is this same message, so the identifier and the sequence number 1 are the same for
  all probes of the run.
\<close>

theorem echo_request_encoding:
  "\<exists>b. createICMPMessage pid = Inr b
       \<and> length b = 8 \<and> b ! 0 = 8 \<and> b ! 1 = 0
       \<and> 256 * uint (b ! 4) + uint (b ! 5) = pid AND 0xffff
       \<and> 256 * uint (b ! 6) + uint (b ! 7) = 1
       \<and> checksum_verifies b
       \<and> (\<forall>m \<in> set (sent (fst (main fuel lib pid envs iters timeout args))). m = b)"
proof -
  define x :: "16 word" where "x = word_of_int (pid AND 0xffff)"
  define hi lo :: byte where "hi = ucast (drop_bit 8 x)" and "lo = ucast x"
  define c where "c = checksum [8, 0, 0, 0, hi, lo, 0, 1]"
  let ?b = "[8, 0, ucast c, ucast (drop_bit 8 c), hi, lo, 0, 1]"
  have enc: "createICMPMessage pid = Inr ?b"
    by (simp add: createICMPMessage_def Marshal_def Let_def ICMPTypeEcho_def PutUint16_def
        c_def hi_def lo_def x_def)
  have ident: "256 * uint hi + uint lo = pid AND 0xffff"
    unfolding hi_def lo_def uint_identifier x_def by (rule identifier_range)
  have "\<forall>m \<in> set (sent (fst (main fuel lib pid envs iters timeout args))). m = ?b"
    using main_writes [of _ fuel lib pid envs iters timeout args] enc by auto
  with enc ident echo_request_checksum [OF c_def] show ?thesis
    by (intro exI [of _ ?b]) simp
qed

theorem echo_request_encoding_witness:
  "createICMPMessage 4242 = Inr [8, 0, 0xe7, 0x6c, 0x10, 0x92, 0, 1]
   \<and> checksum_verifies [8, 0, 0xe7, 0x6c, 0x10, 0x92, 0, 1]
   \<and> sent (fst (main 0 sample_library 4242 (\<lambda>k. timeout_probe) 2 5000 [''10.0.0.1''])) =
       [[8, 0, 0xe7, 0x6c, 0x10, 0x92, 0, 1], [8, 0, 0xe7, 0x6c, 0x10, 0x92, 0, 1]]"
proof -
  have enc: "createICMPMessage 4242 = Inr [8, 0, 0xe7, 0x6c, 0x10, 0x92, 0, 1]"
    by (simp add: createICMPMessage_def Marshal_def Let_def ICMPTypeEcho_def PutUint16_def
        checksum_def)
  from echo_request_encoding [of 4242 0 sample_library "\<lambda>k. timeout_probe" 2 5000 "[''10.0.0.1'']"]
  obtain b where b: "createICMPMessage 4242 = Inr b" "checksum_verifies b"
    by blast
  with enc have "checksum_verifies [8, 0, 0xe7, 0x6c, 0x10, 0x92, 0, 1]"
    by simp
  moreover have "sent (fst (main 0 sample_library 4242 (\<lambda>k. timeout_probe) 2 5000 [''10.0.0.1''])) =
       [[8, 0, 0xe7, 0x6c, 0x10, 0x92, 0, 1], [8, 0, 0xe7, 0x6c, 0x10, 0x92, 0, 1]]"
    by (simp add: main_def flag_Arg_def sample_parseIP for_loop.simps sample_timeout [OF enc]
        Let_def)
  ultimately show ?thesis
    using enc by simp
qed

text \<open>
  C7. With a target that resolves: for a count \<open>iters \<ge> 0\<close>, if every one of the
  \<open>iters\<close> probes returns to the loop (none ends the process through \<^verbatim>\<open>log.Fatal\<close>
  or a panic), the run consists of exactly \<open>iters\<close> rounds, each a one-second sleep
  followed by a probe, and then \<^verbatim>\<open>main\<close> returns by itself. For a negative count,
  as long as the probes return the loop is still running after any number \<open>fuel\<close> of
  rounds, each again a one-second sleep followed by a probe: it has no exit of its own.
  A probe that fails fatally ends either loop: with the socket refused, \<^verbatim>\<open>-n 2\<close>
  runs one round and the process exits with status 1.
\<close>

theorem driver_loop_rounds:
  assumes "flag_Arg args 0 \<noteq> []" and "snd (parseIP lib (flag_Arg args 0)) = Ok dest"
  shows "(0 \<le> iters \<and> (\<forall>k < nat iters. probe_returns lib (envs k)) \<longrightarrow>
            snd (main fuel lib pid envs iters timeout args) = Some (Ok ())
            \<and> pacing (fst (main fuel lib pid envs iters timeout args)) =
                concat (replicate (nat iters) probe_round))
       \<and> (iters < 0 \<and> (\<forall>k < fuel. probe_returns lib (envs k)) \<longrightarrow>
            snd (main fuel lib pid envs iters timeout args) = None
            \<and> pacing (fst (main fuel lib pid envs iters timeout args)) =
                concat (replicate fuel probe_round))"
proof -
  let ?pl = "\<lparr>totalPackets = 0, lostPackets = 0\<rparr>"
  obtain ev0 where pr: "parseIP lib (flag_Arg args 0) = (ev0, Ok dest)"
    using assms(2) by (cases "parseIP lib (flag_Arg args 0)") auto
  have p0: "pacing ev0 = []"
    using pacing_parseIP [of lib "flag_Arg args 0"] pr by simp
  have counted: "snd (main fuel lib pid envs iters timeout args) = Some (Ok ())
            \<and> pacing (fst (main fuel lib pid envs iters timeout args)) =
                concat (replicate (nat iters) probe_round)"
    if nonneg: "0 \<le> iters" and ret: "\<forall>k < nat iters. probe_returns lib (envs k)"
  proof -
    from ret have "\<forall>k. nat 0 \<le> k \<and> k < nat iters \<longrightarrow> probe_returns lib (envs k)"
      by simp
    from for_loop_returns [of iters 0 "nat iters" ?pl lib envs pid dest timeout, OF _ _ _ this]
    obtain ev pl' where f: "for_loop lib pid dest timeout envs iters 0 ?pl = (ev, pl', Ok ())"
      and pc: "pacing ev = concat (replicate (nat iters) probe_round)"
      by auto
    from assms(1) pr nonneg f pc p0 show ?thesis
      by (simp add: main_def pacing_append)
  qed
  have endless: "snd (main fuel lib pid envs iters timeout args) = None
            \<and> pacing (fst (main fuel lib pid envs iters timeout args)) =
                concat (replicate fuel probe_round)"
    if neg: "iters < 0" and ret: "\<forall>k < fuel. probe_returns lib (envs k)"
  proof -
    from ret have "\<forall>j < fuel. probe_returns lib (envs (0 + j))"
      by simp
    from forever_running [of ?pl fuel lib envs 0 pid dest timeout, OF _ this]
    obtain ev pl' where f: "forever fuel lib pid dest timeout envs 0 ?pl = (ev, pl', None)"
      and pc: "pacing ev = concat (replicate fuel probe_round)"
      by auto
    from assms(1) pr neg f pc p0 show ?thesis
      by (simp add: main_def pacing_append)
  qed
  from counted endless show ?thesis
    by blast
qed

theorem driver_loop_rounds_witness:
  "snd (main 0 sample_library 4242 (\<lambda>k. timeout_probe) 3 5000 [''10.0.0.1'']) = Some (Ok ())
   \<and> pacing (fst (main 0 sample_library 4242 (\<lambda>k. timeout_probe) 3 5000 [''10.0.0.1''])) =
       [Sleep Second, ListenPacket ''ip4:icmp'' ''0.0.0.0'',
        Sleep Second, ListenPacket ''ip4:icmp'' ''0.0.0.0'',
        Sleep Second, ListenPacket ''ip4:icmp'' ''0.0.0.0'']
   \<and> snd (main 2 sample_library 4242 (\<lambda>k. timeout_probe) (- 1) 5000 [''10.0.0.1'']) = None
   \<and> pacing (fst (main 2 sample_library 4242 (\<lambda>k. timeout_probe) (- 1) 5000 [''10.0.0.1''])) =
       [Sleep Second, ListenPacket ''ip4:icmp'' ''0.0.0.0'',
        Sleep Second, ListenPacket ''ip4:icmp'' ''0.0.0.0'']"
proof -
  have h1: "flag_Arg [''10.0.0.1''] 0 \<noteq> []"
    by (simp add: flag_Arg_def)
  have h2: "snd (parseIP sample_library (flag_Arg [''10.0.0.1''] 0)) = Ok ''10.0.0.1''"
    by (simp add: flag_Arg_def sample_parseIP)
  show ?thesis
    using driver_loop_rounds [OF h1 h2, of 3 "\<lambda>k. timeout_probe" 0 4242 5000]
      driver_loop_rounds [OF h1 h2, of "- 1" "\<lambda>k. timeout_probe" 2 4242 5000]
      sample_probe_returns(1) [of sample_library]
    by (simp add: probe_round_def eval_nat_numeral)
qed

theorem driver_loop_cut_short:
  "snd (main 0 sample_library 4242 (\<lambda>k. unprivileged_probe) 2 5000 [''10.0.0.1'']) = Some (Exit 1)
   \<and> pacing (fst (main 0 sample_library 4242 (\<lambda>k. unprivileged_probe) 2 5000 [''10.0.0.1''])) =
       [Sleep Second, ListenPacket ''ip4:icmp'' ''0.0.0.0'']
   \<and> snd (main 5 sample_library 4242 (\<lambda>k. unprivileged_probe) (- 1) 5000 [''10.0.0.1'']) = Some (Exit 1)"
  by (simp add: main_def flag_Arg_def sample_parseIP for_loop.simps eval_nat_numeral
      sample_unprivileged Let_def)

text \<open>
  C8. The timer of the \<^verbatim>\<open>select\<close> is created with
  \<^verbatim>\<open>time.Duration(timeout * 1000000)\<close>, the product taken in 64-bit integers. For a
  timeout between -9223372036854 and 9223372036854 milliseconds that duration is
  exactly \<open>timeout\<close> milliseconds, and it is the duration of the one timer of every
  probe that reaches the \<^verbatim>\<open>select\<close>. Beyond that range the product wraps around:
  9223372036855 gives a negative duration.
\<close>

theorem timer_duration_exact:
  "- 9223372036854 \<le> timeout \<Longrightarrow> timeout \<le> 9223372036854 \<Longrightarrow>
     timer_duration timeout = timeout * Millisecond
     \<and> (listen_err env = None \<and> write_err env = None \<longrightarrow>
          timers (fst (ping lib pid a timeout env pl)) = [timeout * Millisecond])"
proof -
  assume "- 9223372036854 \<le> timeout" and "timeout \<le> 9223372036854"
  then have "timer_duration timeout = timeout * Millisecond"
    unfolding timer_duration_def wrap64_def Millisecond_def
    by (simp add: mod_pos_pos_trivial)
  then show ?thesis
    using ping_timers [of env lib pid a timeout pl] by simp
qed

theorem timer_duration_exact_witness:
  "(- 9223372036854 :: int) \<le> 5000 \<and> (5000 :: int) \<le> 9223372036854
   \<and> timer_duration 5000 = 5000000000
   \<and> timers (fst (ping sample_library 4242 ''10.0.0.1'' 5000 timeout_probe
                  \<lparr>totalPackets = 0, lostPackets = 0\<rparr>)) = [5000000000]"
proof -
  have h: "listen_err timeout_probe = None" "write_err timeout_probe = None"
    by (simp_all add: timeout_probe_def)
  show ?thesis
    using h timer_duration_exact [of 5000 timeout_probe sample_library 4242 "''10.0.0.1''"
        "\<lparr>totalPackets = 0, lostPackets = 0\<rparr>"]
    by (simp add: Millisecond_def)
qed

theorem timer_duration_wraps:
  "timer_duration 9223372036855 = - 9223372036854551616
   \<and> timer_duration 9223372036855 \<noteq> 9223372036855 * Millisecond
   \<and> timers (fst (ping sample_library 4242 ''10.0.0.1'' 9223372036855 timeout_probe
                  \<lparr>totalPackets = 0, lostPackets = 0\<rparr>)) = [- 9223372036854551616]"
proof -
  have h: "listen_err timeout_probe = None" "write_err timeout_probe = None"
    by (simp_all add: timeout_probe_def)
  have "timer_duration 9223372036855 = - 9223372036854551616"
    by (simp add: timer_duration_def wrap64_def)
  with ping_timers [OF h, of sample_library 4242 "''10.0.0.1''" 9223372036855
      "\<lparr>totalPackets = 0, lostPackets = 0\<rparr>"]
  show ?thesis
    by (simp add: Millisecond_def)
qed

text \<open>
  C9. When no target is given (\<^verbatim>\<open>flag.Arg(0)\<close> is empty), \<^verbatim>\<open>main\<close> prints the usage
  line and the flag defaults and returns, so the process ends with status 0; it
  resolves nothing, opens no socket and sends nothing.
\<close>

theorem main_without_target:
  "flag_Arg args 0 = [] \<Longrightarrow>
     main fuel lib pid envs iters timeout args =
       ([Stdout ''Usage: goping [Arguments] IP/Hostname'', PrintDefaults], Some (Ok ()))
     \<and> exit_status (Ok ()) = 0
     \<and> network_events (fst (main fuel lib pid envs iters timeout args)) = []"
  by (simp add: main_def exit_status_def)

theorem main_without_target_witness:
  "flag_Arg [] 0 = []
   \<and> main 0 sample_library 4242 (\<lambda>k. reply_probe) (- 1) 5000 [] =
       ([Stdout ''Usage: goping [Arguments] IP/Hostname'', PrintDefaults], Some (Ok ()))
   \<and> exit_status (Ok ()) = 0
   \<and> network_events (fst (main 0 sample_library 4242 (\<lambda>k. reply_probe) (- 1) 5000 [])) = []"
proof -
  have h: "flag_Arg [] 0 = []"
    by (simp add: flag_Arg_def)
  show ?thesis
    using h main_without_target [OF h] by simp
qed

text \<open>
  C10. When the receive completes first, the error that \<^verbatim>\<open>ReadFrom\<close> returned plays
  no part: the probe does exactly what it does for the same receive without an error.
  It is not counted or printed as a timeout; \<^verbatim>\<open>sendPing\<close> returns the packet with the
  error stored in it (the check after the \<^verbatim>\<open>select\<close> reads the send error, which is
  \<^verbatim>\<open>nil\<close> there), and \<^verbatim>\<open>ping\<close> goes on to parse the received bytes and, when they
  parse, prints what \<^verbatim>\<open>printPingReply\<close> prints for them.
\<close>

theorem receive_error_not_inspected:
  assumes "listen_err env = None" and "write_err env = None"
    and "race env = ReceiveFirst n replyIP e bytes"
  shows "ping lib pid a t env pl = ping lib pid a t (env\<lparr>race := ReceiveFirst n replyIP None bytes\<rparr>) pl
     \<and> ''Request timed out.'' \<notin> set (stdout_lines (fst (ping lib pid a t env pl)))
     \<and> fst (snd (ping lib pid a t env pl)) = pl\<lparr>totalPackets := totalPackets pl + 1\<rparr>
     \<and> (n \<le> 1500 \<longrightarrow>
          snd (snd (sendPing a m t env pl)) =
            Ok \<lparr>lenMsg = int n, addr = replyIP,
                msg = take n (take 1500 (bytes @ replicate 1500 0)),
                dur = elapsed env, err = e\<rparr>
          \<and> (case ParseMessage lib 1 (take n (take 1500 (bytes @ replicate 1500 0))) of
                Inl pe \<Rightarrow> snd (snd (ping lib pid a t env pl)) = Exit 1
              | Inr rm \<Rightarrow>
                  stdout_lines (fst (ping lib pid a t env pl)) =
                    stdout_lines (fst (printPingReply lib rm (elapsed env) replyIP
                                         (pl\<lparr>totalPackets := totalPackets pl + 1\<rparr>)))
                  \<and> snd (snd (ping lib pid a t env pl)) =
                      snd (printPingReply lib rm (elapsed env) replyIP
                             (pl\<lparr>totalPackets := totalPackets pl + 1\<rparr>))))"
proof -
  obtain m' where m': "createICMPMessage pid = Inr m'"
    using createICMPMessage_Inr by blast
  let ?env' = "env\<lparr>race := ReceiveFirst n replyIP None bytes\<rparr>"
  have same: "ping lib pid a t env pl = ping lib pid a t ?env' pl"
    using assms m'
    by (simp add: ping_def Let_def
        sendPing_receive [of env n replyIP e bytes]
        sendPing_receive [of ?env' n replyIP None bytes]
        cong: sum.case_cong prod.case_cong)
  have "\<not> timed_out env"
    using assms(3) by (simp add: timed_out_def)
  then have no_line: "''Request timed out.'' \<notin> set (stdout_lines (fst (ping lib pid a t env pl)))"
    using ping_timeout_line [of lib pid a t env pl] by simp
  have st: "fst (snd (ping lib pid a t env pl)) = pl\<lparr>totalPackets := totalPackets pl + 1\<rparr>"
    using assms m'
    by (simp add: ping_def Let_def sendPing_receive [of env n replyIP e bytes]
        split: sum.splits prod.splits)
  have rest: "snd (snd (sendPing a m t env pl)) =
            Ok \<lparr>lenMsg = int n, addr = replyIP,
                msg = take n (take 1500 (bytes @ replicate 1500 0)),
                dur = elapsed env, err = e\<rparr>
          \<and> (case ParseMessage lib 1 (take n (take 1500 (bytes @ replicate 1500 0))) of
                Inl pe \<Rightarrow> snd (snd (ping lib pid a t env pl)) = Exit 1
              | Inr rm \<Rightarrow>
                  stdout_lines (fst (ping lib pid a t env pl)) =
                    stdout_lines (fst (printPingReply lib rm (elapsed env) replyIP
                                         (pl\<lparr>totalPackets := totalPackets pl + 1\<rparr>)))
                  \<and> snd (snd (ping lib pid a t env pl)) =
                      snd (printPingReply lib rm (elapsed env) replyIP
                             (pl\<lparr>totalPackets := totalPackets pl + 1\<rparr>)))"
    if "n \<le> 1500"
    using that assms m'
    by (simp add: ping_def Let_def sendPing_receive [of env n replyIP e bytes]
        stdout_lines_append split: sum.splits prod.splits)
  from same no_line st rest show ?thesis
    by blast
qed

theorem receive_error_not_inspected_witness:
  "ping sample_library 4242 ''10.0.0.1'' 5000 failed_read_probe \<lparr>totalPackets = 0, lostPackets = 0\<rparr> =
     ping sample_library 4242 ''10.0.0.1'' 5000
       (failed_read_probe\<lparr>race := ReceiveFirst 0 None None []\<rparr>) \<lparr>totalPackets = 0, lostPackets = 0\<rparr>
   \<and> fst (snd (ping sample_library 4242 ''10.0.0.1'' 5000 failed_read_probe
                  \<lparr>totalPackets = 0, lostPackets = 0\<rparr>)) = \<lparr>totalPackets = 1, lostPackets = 0\<rparr>
   \<and> snd (snd (sendPing ''10.0.0.1'' [] 5000 failed_read_probe \<lparr>totalPackets = 0, lostPackets = 0\<rparr>)) =
       Ok \<lparr>lenMsg = 0, addr = None, msg = [], dur = 1000,
           err = Some (Error ''read ip4 0.0.0.0: i/o timeout'')\<rparr>
   \<and> snd (snd (ping sample_library 4242 ''10.0.0.1'' 5000 failed_read_probe
                  \<lparr>totalPackets = 0, lostPackets = 0\<rparr>)) = Exit 1"
proof -
  have h: "listen_err failed_read_probe = None" "write_err failed_read_probe = None"
    "race failed_read_probe =
       ReceiveFirst 0 None (Some (Error ''read ip4 0.0.0.0: i/o timeout'')) []"
    by (simp_all add: failed_read_probe_def)
  have el: "elapsed failed_read_probe = 1000"
    by (simp add: failed_read_probe_def)
  have pm: "ParseMessage sample_library 1 [] = Inl (Error ''message too short'')"
    by (simp add: sample_library_def)
  note inst = receive_error_not_inspected [OF h, of sample_library 4242 "''10.0.0.1''" 5000
      "\<lparr>totalPackets = 0, lostPackets = 0\<rparr>" "[]", simplified, unfolded el pm, simplified]
  from inst show ?thesis
    by blast
qed

end
